theory Spec2Isabelle
  imports Complex_Main
begin

section \<open>Text helpers\<close>

text \<open>
  Python \<open>str\<close> values are modelled as HOL strings holding the UTF-8 bytes of the
  text, so an ASCII character is one \<open>char\<close>. The helpers below are the \<open>str\<close>
  operations the agents use: \<open>in\<close>, \<open>split\<close>, \<open>strip\<close>, \<open>lower\<close>, \<open>join\<close>, the
  slice \<open>[:n]\<close> and the decimal formatting of an integer inside an f-string.
\<close>

definition nl :: string where
  "nl = [CHR 0x0A]"

fun join :: "string \<Rightarrow> string list \<Rightarrow> string" where
  "join sep [] = []"
| "join sep [x] = x"
| "join sep (x # y # ys) = x @ sep @ join sep (y # ys)"

fun contains :: "string \<Rightarrow> string \<Rightarrow> bool" where
  "contains sub [] = (sub = [])"
| "contains sub (c # cs) = (take (length sub) (c # cs) = sub \<or> contains sub cs)"

function split_acc :: "string \<Rightarrow> string \<Rightarrow> string \<Rightarrow> string list" where
  "split_acc sep acc [] = [acc]"
| "split_acc sep acc (c # cs) =
     (if sep \<noteq> [] \<and> take (length sep) (c # cs) = sep
      then acc # split_acc sep [] (drop (length sep) (c # cs))
      else split_acc sep (acc @ [c]) cs)"
  by pat_completeness auto
termination
  by (relation "measure (\<lambda>(sep, acc, s). length s)") auto

definition split :: "string \<Rightarrow> string \<Rightarrow> string list" where
  "split s sep = split_acc sep [] s"

text \<open>
  \<open>str.strip()\<close> removes the characters for which \<open>str.isspace()\<close> holds from both
  ends: U+0009 to U+000D, U+001C to U+0020, U+0085, U+00A0, U+1680, U+2000 to U+200A,
  U+2028, U+2029, U+202F, U+205F and U+3000, listed here by their UTF-8 bytes.
\<close>

definition whitespace :: "string list" where
  "whitespace =
     [[CHR 0x09], [CHR 0x0A], [CHR 0x0B], [CHR 0x0C], [CHR 0x0D],
      [CHR 0x1C], [CHR 0x1D], [CHR 0x1E], [CHR 0x1F], [CHR 0x20],
      [CHR 0xC2, CHR 0x85], [CHR 0xC2, CHR 0xA0], [CHR 0xE1, CHR 0x9A, CHR 0x80],
      [CHR 0xE2, CHR 0x80, CHR 0x80], [CHR 0xE2, CHR 0x80, CHR 0x81],
      [CHR 0xE2, CHR 0x80, CHR 0x82], [CHR 0xE2, CHR 0x80, CHR 0x83],
      [CHR 0xE2, CHR 0x80, CHR 0x84], [CHR 0xE2, CHR 0x80, CHR 0x85],
      [CHR 0xE2, CHR 0x80, CHR 0x86], [CHR 0xE2, CHR 0x80, CHR 0x87],
      [CHR 0xE2, CHR 0x80, CHR 0x88], [CHR 0xE2, CHR 0x80, CHR 0x89],
      [CHR 0xE2, CHR 0x80, CHR 0x8A], [CHR 0xE2, CHR 0x80, CHR 0xA8],
      [CHR 0xE2, CHR 0x80, CHR 0xA9], [CHR 0xE2, CHR 0x80, CHR 0xAF],
      [CHR 0xE2, CHR 0x81, CHR 0x9F], [CHR 0xE3, CHR 0x80, CHR 0x80]]"

text \<open>
  \<open>drop_leading_from qs 0 s\<close> removes from the front of \<open>s\<close> every leading occurrence of one
  of the byte sequences \<open>qs\<close>; \<open>skip\<close> counts the bytes of the current occurrence that
  are still to be dropped.
\<close>

fun drop_leading_from :: "string list \<Rightarrow> nat \<Rightarrow> string \<Rightarrow> string" where
  "drop_leading_from qs skip [] = []"
| "drop_leading_from qs (Suc skip) (c # cs) = drop_leading_from qs skip cs"
| "drop_leading_from qs 0 (c # cs) =
     (case find (\<lambda>q. q \<noteq> [] \<and> take (length q) (c # cs) = q) qs of
        None \<Rightarrow> c # cs
      | Some q \<Rightarrow> drop_leading_from qs (length q - 1) cs)"

definition lstrip :: "string \<Rightarrow> string" where
  "lstrip s = drop_leading_from whitespace 0 s"

definition rstrip :: "string \<Rightarrow> string" where
  "rstrip s = rev (drop_leading_from (map rev whitespace) 0 (rev s))"

definition strip :: "string \<Rightarrow> string" where
  "strip s = rstrip (lstrip s)"

text \<open>
  \<open>str.lower()\<close> on the ASCII letters. Its only use is the test whether the lowered
  text contains the ASCII word \<open>calculator\<close>. Outside ASCII, the only characters that
  \<open>str.lower()\<close> turns into text with an ASCII letter are U+0130 (giving \<open>i\<close>) and
  U+212A (giving \<open>k\<close>), and neither letter occurs in that word, so the test has the
  same outcome.
\<close>

definition lower_char :: "char \<Rightarrow> char" where
  "lower_char c = (let n = (of_char c :: nat) in if 65 \<le> n \<and> n \<le> 90 then char_of (n + 32) else c)"

definition lower :: "string \<Rightarrow> string" where
  "lower s = map lower_char s"

text \<open>
  The slice \<open>s[:n]\<close> keeps the first \<open>n\<close> characters: a character is a byte that is
  not a UTF-8 continuation byte, together with the continuation bytes after it.
\<close>

definition is_continuation :: "char \<Rightarrow> bool" where
  "is_continuation c = (let n = (of_char c :: nat) in 128 \<le> n \<and> n < 192)"

fun take_chars :: "nat \<Rightarrow> string \<Rightarrow> string" where
  "take_chars 0 s = []"
| "take_chars (Suc n) [] = []"
| "take_chars (Suc n) (c # cs) =
     c # takeWhile is_continuation cs @ take_chars n (dropWhile is_continuation cs)"

fun show_nat :: "nat \<Rightarrow> string" where
  "show_nat n = (if n < 10 then [''0123456789'' ! n]
                 else show_nat (n div 10) @ [''0123456789'' ! (n mod 10)])"

definition show_int :: "int \<Rightarrow> string" where
  "show_int i = (if i < 0 then ''-'' @ show_nat (nat (- i)) else show_nat (nat i))"

text \<open>An f-string prints \<open>None\<close> for an absent optional text.\<close>

definition show_opt :: "string option \<Rightarrow> string" where
  "show_opt x = (case x of None \<Rightarrow> ''None'' | Some s \<Rightarrow> s)"

text \<open>
  A Python \<open>dict\<close> with text keys: an association list in insertion order. Storing under an
  existing key replaces the value in place, storing under a new key appends.
\<close>

type_synonym 'v dict = "(string \<times> 'v) list"

fun dict_set :: "'v dict \<Rightarrow> string \<Rightarrow> 'v \<Rightarrow> 'v dict" where
  "dict_set [] k v = [(k, v)]"
| "dict_set ((k', v') # d) k v = (if k' = k then (k, v) # d else (k', v') # dict_set d k v)"

definition dict_get :: "'v dict \<Rightarrow> string \<Rightarrow> 'v option" where
  "dict_get d k = map_of d k"

section \<open>Shared state (core/state.py)\<close>

datatype TaskStatus = PENDING | IN_PROGRESS | COMPLETED | FAILED | VALIDATION_FAILED

record Task =
  id' :: string
  description :: string
  agent :: string
  status :: TaskStatus
  dependencies :: "string list"
  result :: "string option"
  error :: "string option"

text \<open>The entries of \<open>tool_calls\<close> and the dict stored in \<open>validation_result\<close>.\<close>

record tool_call =
  tc_task_id :: string
  tc_description :: string
  tc_result :: string

record verdict =
  valid :: bool
  score :: real
  feedback :: string

text \<open>
  \<open>current_task_index\<close> is an index into \<open>task_plan\<close>: it starts at 0 and the agents only
  add 1 to it or reset it to 0, so it is a natural number here. The other counters
  are Python integers.
\<close>

record AgentState =
  user_input :: string
  user_goal :: string
  task_plan :: "Task list"
  current_task_index :: nat
  current_task :: "Task option"
  tool_calls :: "tool_call list"
  execution_results :: "string dict"
  validation_result :: "verdict option"
  validation_passed :: bool
  retry_count :: int
  conversation_history :: "(string \<times> string) list"
  retrieved_context :: "string option"
  next_agent :: string
  iteration_count :: int
  is_complete :: bool
  final_output :: "string option"
  errors :: "string list"
  warnings :: "string list"

definition create_initial_state :: "string \<Rightarrow> AgentState" where
  "create_initial_state input =
     \<lparr> user_input = input, user_goal = input, task_plan = [], current_task_index = 0,
       current_task = None, tool_calls = [], execution_results = [],
       validation_result = None, validation_passed = False, retry_count = 0,
       conversation_history = [], retrieved_context = None, next_agent = ''planner'',
       iteration_count = 0, is_complete = False, final_output = None,
       errors = [], warnings = [] \<rparr>"

section \<open>Collaborators and their effects\<close>

text \<open>
  The language models, the tools and the vector store are outside the engine. Each is a
  function of the number of external calls made so far (\<open>tick\<close>) and of the text it is
  given, so that two calls with the same text may answer differently. \<open>Inl e\<close> is a
  raised exception with \<open>str(e) = e\<close>.

  The planner's and the validator's answers are JSON texts that the agents decode with
  \<open>json.loads\<close>; the decoding is not part of the model, and the two oracles return what
  \<open>_parse_plan\<close> and \<open>_parse_validation\<close> hand back: the list of task dicts (or the
  exception that the planner's \<open>try\<close> block catches), and the verdict dict with its three
  keys (\<open>_parse_validation\<close> itself never raises). The \<open>score\<close> of a verdict is only
  ever compared with the threshold.

  The \<open>world\<close> records the effects: every tool invocation with its input, every text
  added to the vector store, and the number of times the store was saved.
\<close>

record ToolResult =
  success :: bool
  result_text :: string
  error_text :: string

record BaseTool =
  name :: string
  tool_description :: string
  tool_execute :: "nat \<Rightarrow> string \<Rightarrow> string + ToolResult"

record plan_item =
  item_id :: string
  item_description :: string
  item_agent :: "string option"
  item_dependencies :: "string list option"

record env =
  planner_llm :: "nat \<Rightarrow> string \<Rightarrow> string + plan_item list"
  executor_llm :: "nat \<Rightarrow> string \<Rightarrow> string + string"
  validator_llm :: "nat \<Rightarrow> string \<Rightarrow> string + verdict"
  tools :: "BaseTool list"
  threshold :: real
  store_add_text :: "nat \<Rightarrow> string \<Rightarrow> bool"
  store_save :: "nat \<Rightarrow> bool"
  store_search :: "nat \<Rightarrow> string \<Rightarrow> string list"

record world =
  tick :: nat
  invocations :: "(string \<times> string) list"
  stored :: "string list"
  saves :: nat

definition called :: "world \<Rightarrow> world" where
  "called w = w\<lparr>tick := tick w + 1\<rparr>"

section \<open>Executor agent (agents/executor_agent.py)\<close>

text \<open>\<open>self.tools = {tool.name: tool for tool in tools}\<close>\<close>

definition tools_dict :: "env \<Rightarrow> BaseTool dict" where
  "tools_dict e = foldl (\<lambda>d t. dict_set d (name t) t) [] (tools e)"

definition check_dependencies :: "Task \<Rightarrow> AgentState \<Rightarrow> bool" where
  "check_dependencies task state =
     list_all (\<lambda>dep_id.
        case find (\<lambda>t. id' t = dep_id) (task_plan state) of
          None \<Rightarrow> False
        | Some dep_task \<Rightarrow> status dep_task = COMPLETED)
       (dependencies task)"

definition format_tools_description :: "env \<Rightarrow> string" where
  "format_tools_description e =
     join nl (map (\<lambda>(n, t). ''- '' @ n @ '': '' @ tool_description t) (tools_dict e))"

definition build_execution_prompt :: "env \<Rightarrow> Task \<Rightarrow> AgentState \<Rightarrow> string" where
  "build_execution_prompt e task state =
     (let context = concat (map (\<lambda>dep_id.
            case dict_get (execution_results state) dep_id of
              None \<Rightarrow> []
            | Some r \<Rightarrow> [''Result from '' @ dep_id @ '': '' @ r]) (dependencies task));
          context_str = (if context \<noteq> [] then join nl context else ''No previous results'')
      in join nl
        ['''',
         ''Task: '' @ description task,
         '''',
         ''Previous Results:'',
         context_str,
         '''',
         ''Available Tools:'',
         format_tools_description e,
         '''',
         ''Instructions:'',
         ''1. Analyze the task'',
         ''2. Decide which tool(s) to use'',
         ''3. Provide tool name and inputs'',
         ''4. Format: TOOL: <tool_name> | INPUT: <input_data>'',
         '''',
         ''Example: TOOL: calculator | INPUT: 5 + 3 * 2'',
         ''''])"

text \<open>
  The tool call that \<open>_execute_with_tools\<close> reads out of the response: the tool name
  and the tool input, when the response has both markers.
\<close>

definition parse_tool_call :: "string \<Rightarrow> (string \<times> string) option" where
  "parse_tool_call llm_response =
     (if contains ''TOOL:'' llm_response \<and> contains ''INPUT:'' llm_response
      then Some (strip (hd (split (split llm_response ''TOOL:'' ! 1) ''|'')),
                 strip (split llm_response ''INPUT:'' ! 1))
      else None)"

definition execute_with_tools :: "env \<Rightarrow> world \<Rightarrow> string \<Rightarrow> world \<times> string" where
  "execute_with_tools e w llm_response =
     (case parse_tool_call llm_response of
        None \<Rightarrow> (w, llm_response)
      | Some (tool_name, tool_input) \<Rightarrow>
          (case dict_get (tools_dict e) tool_name of
             None \<Rightarrow> (w, llm_response)
           | Some tool \<Rightarrow>
               (let w' = called (w\<lparr>invocations := invocations w @ [(tool_name, tool_input)]\<rparr>)
                in case tool_execute tool (tick w) tool_input of
                     Inl ex \<Rightarrow> (w', ''Tool execution failed: '' @ ex)
                   | Inr tool_result \<Rightarrow>
                       if success tool_result
                       then (w', ''Tool '' @ tool_name @ '' executed successfully:'' @ nl
                                  @ result_text tool_result)
                       else (w', ''Tool '' @ tool_name @ '' failed: ''
                                  @ error_text tool_result))))"

text \<open>
  The three ways \<open>execute\<close> leaves a task at index \<open>i\<close>: dependencies not met,
  an exception caught by the outer handler (only the model call can raise one, after
  the task was marked in progress), and the update after \<open>_execute_with_tools\<close>.
\<close>

definition dependencies_not_met :: "AgentState \<Rightarrow> nat \<Rightarrow> AgentState" where
  "dependencies_not_met state i =
     (let current = task_plan state ! i;
          error_msg = ''Dependencies not met for '' @ id' current
      in state\<lparr>task_plan := (task_plan state)[i := current\<lparr>status := FAILED, error := Some error_msg\<rparr>],
               errors := errors state @ [error_msg],
               next_agent := ''validator''\<rparr>)"

definition execution_failed :: "AgentState \<Rightarrow> nat \<Rightarrow> string \<Rightarrow> AgentState" where
  "execution_failed state i ex =
     (let current = task_plan state ! i
      in state\<lparr>task_plan := (task_plan state)[i := current\<lparr>status := FAILED, error := Some ex\<rparr>],
               errors := errors state @ [''Execution error: '' @ ex],
               next_agent := ''validator''\<rparr>)"

definition task_done :: "AgentState \<Rightarrow> nat \<Rightarrow> string \<Rightarrow> AgentState" where
  "task_done state i res =
     (let current = task_plan state ! i;
          index' = current_task_index state + 1
      in state\<lparr>task_plan := (task_plan state)[i := current\<lparr>status := COMPLETED, result := Some res\<rparr>],
               execution_results := dict_set (execution_results state) (id' current) res,
               tool_calls := tool_calls state @
                 [\<lparr>tc_task_id = id' current, tc_description = description current, tc_result = res\<rparr>],
               current_task_index := index',
               iteration_count := iteration_count state + 1,
               next_agent := (if index' < length (task_plan state) then ''executor'' else ''validator'')\<rparr>)"

definition in_progress :: "AgentState \<Rightarrow> nat \<Rightarrow> AgentState" where
  "in_progress state i =
     state\<lparr>task_plan := (task_plan state)[i := (task_plan state ! i)\<lparr>status := IN_PROGRESS\<rparr>]\<rparr>"

definition executor_execute :: "env \<Rightarrow> world \<times> AgentState \<Rightarrow> world \<times> AgentState" where
  "executor_execute e ws =
     (let w = fst ws; state = snd ws; task_index = current_task_index state
      in if task_index \<ge> length (task_plan state)
         then (w, state\<lparr>next_agent := ''validator''\<rparr>)
         else if \<not> check_dependencies (task_plan state ! task_index) state
         then (w, dependencies_not_met state task_index)
         else
           (let state1 = in_progress state task_index;
                prompt = build_execution_prompt e (task_plan state1 ! task_index) state1
            in case executor_llm e (tick w) prompt of
                 Inl ex \<Rightarrow> (called w, execution_failed state1 task_index ex)
               | Inr llm_response \<Rightarrow>
                   (let r = execute_with_tools e (called w) llm_response
                    in (fst r, task_done state1 task_index (snd r)))))"

text \<open>
  The answer of the decision step for the task at the cursor, as \<open>execute\<close> asks for it:
  the task is marked in progress, the prompt is built, the model is called.
\<close>

definition decision :: "env \<Rightarrow> world \<Rightarrow> AgentState \<Rightarrow> string + string" where
  "decision e w state =
     (let i = current_task_index state; state1 = in_progress state i
      in executor_llm e (tick w) (build_execution_prompt e (task_plan state1 ! i) state1))"

section \<open>Validator agent (agents/validator_agent.py)\<close>

definition is_simple_calculator_task :: "AgentState \<Rightarrow> bool" where
  "is_simple_calculator_task state =
     (if \<not> list_all (\<lambda>tool_call. contains ''calculator'' (lower (tc_result tool_call)))
              (tool_calls state)
      then False
      else if errors state \<noteq> [] then False
      else if length (filter (\<lambda>t. status t = COMPLETED) (task_plan state)) \<noteq> length (task_plan state)
      then False
      else True)"

definition compile_task :: "Task \<Rightarrow> string list" where
  "compile_task task =
     (if status task = COMPLETED
      then [[CHR 0xE2, CHR 0x9C, CHR 0x93] @ '' '' @ description task,
            ''  Result: '' @ show_opt (result task) @ nl]
      else if status task = FAILED
      then [[CHR 0xE2, CHR 0x9C, CHR 0x97] @ '' '' @ description task,
            ''  Error: '' @ show_opt (error task) @ nl]
      else [])"

definition compile_final_output :: "AgentState \<Rightarrow> string" where
  "compile_final_output state =
     join nl ([''Goal: '' @ user_goal state @ nl]
              @ concat (map compile_task (task_plan state))
              @ (case validation_result state of
                   None \<Rightarrow> []
                 | Some v \<Rightarrow> [nl @ ''Validation: '' @ feedback v]))"

text \<open>
  \<open>t['result'][:200]\<close> raises a \<open>TypeError\<close> for a completed task without a result; the
  validator's handler catches it.
\<close>

definition completed_line :: "Task \<Rightarrow> string + string" where
  "completed_line t =
     (case result t of
        None \<Rightarrow> Inl (CHR 0x27 # ''NoneType'' @ CHR 0x27 # '' object is not subscriptable'')
      | Some r \<Rightarrow> Inr (''- '' @ id' t @ '': '' @ description t @ nl @ ''  Result: '' @ take_chars 200 r))"

fun collect :: "(string + string) list \<Rightarrow> string + string list" where
  "collect [] = Inr []"
| "collect (Inl ex # xs) = Inl ex"
| "collect (Inr x # xs) = (case collect xs of Inl ex \<Rightarrow> Inl ex | Inr ys \<Rightarrow> Inr (x # ys))"

definition build_validation_prompt :: "AgentState \<Rightarrow> Task list \<Rightarrow> Task list \<Rightarrow> string + string" where
  \<open>build_validation_prompt state completed_tasks failed_tasks =
     (case collect (map completed_line completed_tasks) of
        Inl ex \<Rightarrow> Inl ex
      | Inr completed_lines \<Rightarrow>
          (let completed_str = join nl completed_lines;
               failed_str = (if failed_tasks \<noteq> []
                  then join nl (map (\<lambda>t. ''- '' @ id' t @ '': '' @ description t @ nl
                                         @ ''  Error: '' @ show_opt (error t)) failed_tasks)
                  else ''None'')
           in Inr (join nl
             ['''',
              ''Original Goal: '' @ user_goal state,
              '''',
              ''Completed Tasks:'',
              completed_str,
              '''',
              ''Failed Tasks:'',
              failed_str,
              '''',
              ''Evaluate if the goal was achieved successfully.'',
              ''Consider:'',
              ''1. Were all required tasks completed?'',
              ''2. Do results make sense and answer the goal?'',
              ''3. Are there any errors or inconsistencies?'',
              ''4. Is the quality acceptable?'',
              '''',
              ''Output ONLY valid JSON:'',
              ''{'',
              ''  "valid": true/false,'',
              ''  "score": 0.0-1.0,'',
              ''  "feedback": "Detailed feedback on what worked or failed"'',
              ''}'',
              ''''])))\<close>

text \<open>The loop that resets the failed tasks before a retry.\<close>

definition reset_failed :: "Task list \<Rightarrow> Task list" where
  "reset_failed plan = map (\<lambda>task. if status task = FAILED then task\<lparr>status := PENDING\<rparr> else task) plan"

definition auto_validated :: "AgentState \<Rightarrow> AgentState" where
  "auto_validated state =
     (let state1 = state\<lparr>validation_passed := True,
                        validation_result := Some \<lparr>valid = True, score = 1,
                          feedback = ''Auto-validated: Simple calculator task completed successfully''\<rparr>\<rparr>
      in state1\<lparr>final_output := Some (compile_final_output state1),
                next_agent := ''end'', is_complete := True\<rparr>)"

definition validation_error :: "AgentState \<Rightarrow> string \<Rightarrow> AgentState" where
  "validation_error state ex =
     state\<lparr>errors := errors state @ [''Validation error: '' @ ex],
           validation_passed := False, next_agent := ''end'', is_complete := True\<rparr>"

definition decide :: "env \<Rightarrow> AgentState \<Rightarrow> verdict \<Rightarrow> AgentState" where
  "decide e state validation_result' =
     (let state1 = state\<lparr>validation_result := Some validation_result'\<rparr>
      in if valid validation_result' \<and> score validation_result' \<ge> threshold e
         then state1\<lparr>validation_passed := True,
                     final_output := Some (compile_final_output (state1\<lparr>validation_passed := True\<rparr>)),
                     next_agent := ''end'', is_complete := True\<rparr>
         else if retry_count state1 < 2
         then state1\<lparr>validation_passed := False,
                     retry_count := retry_count state1 + 1,
                     warnings := warnings state1 @
                       [''Retry '' @ show_int (retry_count state1 + 1) @ '': '' @ feedback validation_result'],
                     current_task_index := 0,
                     task_plan := reset_failed (task_plan state1),
                     next_agent := ''executor''\<rparr>
         else
           (let state2 = state1\<lparr>validation_passed := False,
                                errors := errors state1 @ [''Validation failed after max retries'']\<rparr>
            in state2\<lparr>final_output := Some (compile_final_output state2),
                      next_agent := ''end'', is_complete := True\<rparr>))"

definition validator_execute :: "env \<Rightarrow> world \<times> AgentState \<Rightarrow> world \<times> AgentState" where
  "validator_execute e ws =
     (let w = fst ws; state = snd ws
      in if is_simple_calculator_task state then (w, auto_validated state)
         else
           (let completed_tasks = filter (\<lambda>t. status t = COMPLETED) (task_plan state);
                failed_tasks = filter (\<lambda>t. status t = FAILED) (task_plan state)
            in if completed_tasks = [] \<and> failed_tasks = []
               then (w, state\<lparr>validation_passed := False, next_agent := ''end'', is_complete := True\<rparr>)
               else
                 (case build_validation_prompt state completed_tasks failed_tasks of
                    Inl ex \<Rightarrow> (w, validation_error state ex)
                  | Inr validation_prompt \<Rightarrow>
                      (case validator_llm e (tick w) validation_prompt of
                         Inl ex \<Rightarrow> (called w, validation_error state ex)
                       | Inr validation_result' \<Rightarrow> (called w, decide e state validation_result')))))"

text \<open>
  The answer of the scorer on the full path: the prompt built from the completed and
  the failed tasks, then the model call.
\<close>

definition scoring :: "env \<Rightarrow> world \<Rightarrow> AgentState \<Rightarrow> string + verdict" where
  "scoring e w state =
     (case build_validation_prompt state
             (filter (\<lambda>t. status t = COMPLETED) (task_plan state))
             (filter (\<lambda>t. status t = FAILED) (task_plan state)) of
        Inl ex \<Rightarrow> Inl ex
      | Inr validation_prompt \<Rightarrow> validator_llm e (tick w) validation_prompt)"

section \<open>Planner agent (agents/planner_agent.py)\<close>

definition planning_prompt :: "string \<Rightarrow> string" where
  \<open>planning_prompt goal = join nl
     ['''',
      ''User Goal: '' @ goal,
      '''',
      ''Available Tools:'',
      ''- file_reader: Read PDF, TXT, CSV, DOCX files'',
      ''- python_executor: Execute Python code'',
      ''- calculator: Perform mathematical calculations'',
      ''- memory_search: Search past conversation memory'',
      '''',
      ''Create a step-by-step plan to achieve this goal.'',
      ''Output ONLY valid JSON with this exact structure:'',
      ''{'',
      ''  "tasks": ['',
      ''    {'',
      ''      "id": "task_1",'',
      ''      "description": "Clear description of what to do",'',
      ''      "agent": "executor",'',
      ''      "dependencies": []'',
      ''    },'',
      ''    {'',
      ''      "id": "task_2",'',
      ''      "description": "Next task description",'',
      ''      "agent": "executor",'',
      ''      "dependencies": ["task_1"]'',
      ''    }'',
      ''  ]'',
      ''}'',
      '''',
      ''Rules:'',
      ''1. Break complex goals into 2-8 simple tasks'',
      ''2. Each task should use ONE tool or action'',
      ''3. Dependencies: List task IDs that must complete first'',
      ''4. Keep tasks atomic and executable'',
      ''5. Always assign agent="executor" for now'',
      '''']\<close>

definition to_task :: "plan_item \<Rightarrow> Task" where
  "to_task task_dict =
     \<lparr> id' = item_id task_dict,
       description = item_description task_dict,
       agent = (case item_agent task_dict of None \<Rightarrow> ''executor'' | Some a \<Rightarrow> a),
       status = PENDING,
       dependencies = (case item_dependencies task_dict of None \<Rightarrow> [] | Some ds \<Rightarrow> ds),
       result = None,
       error = None \<rparr>"

definition planner_execute :: "env \<Rightarrow> world \<times> AgentState \<Rightarrow> world \<times> AgentState" where
  "planner_execute e ws =
     (let w = fst ws; state = snd ws
      in case planner_llm e (tick w) (planning_prompt (user_goal state)) of
           Inl ex \<Rightarrow>
             (called w, state\<lparr>errors := errors state @ [''Planning error: '' @ ex],
                             next_agent := ''end'', is_complete := True\<rparr>)
         | Inr task_dicts \<Rightarrow>
             (called w, state\<lparr>task_plan := map to_task task_dicts,
                             current_task_index := 0,
                             next_agent := ''executor'',
                             iteration_count := iteration_count state + 1\<rparr>))"

section \<open>Memory agent (agents/memory_agent.py)\<close>

text \<open>
  \<open>_store_current_context\<close> adds the goal and every non-empty task result to the vector
  store and saves it; the first failing call ends it, and the exception is swallowed.
  \<open>store_add_text\<close> and \<open>store_save\<close> tell whether a call succeeds.
\<close>

fun add_texts :: "env \<Rightarrow> world \<Rightarrow> string list \<Rightarrow> world \<times> bool" where
  "add_texts e w [] = (w, True)"
| "add_texts e w (t # ts) =
     (if store_add_text e (tick w) t
      then add_texts e (called (w\<lparr>stored := stored w @ [t]\<rparr>)) ts
      else (called w, False))"

definition store_current_context :: "env \<Rightarrow> world \<Rightarrow> AgentState \<Rightarrow> world" where
  "store_current_context e w state =
     (let texts = (''User Goal: '' @ user_goal state) #
            concat (map (\<lambda>task. case result task of
                           None \<Rightarrow> []
                         | Some r \<Rightarrow> if r = [] then []
                                     else [''Task: '' @ description task @ nl @ ''Result: '' @ r])
                        (task_plan state));
          added = add_texts e w texts
      in if snd added
         then (if store_save e (tick (fst added))
               then called ((fst added)\<lparr>saves := saves (fst added) + 1\<rparr>)
               else called (fst added))
         else fst added)"

definition retrieve_relevant_context :: "env \<Rightarrow> world \<Rightarrow> string \<Rightarrow> string" where
  "retrieve_relevant_context e w query =
     (let results = store_search e (tick w) query
      in if results = [] then ''No relevant past context found''
         else join (nl @ nl)
                (map (\<lambda>(i, text). ''['' @ show_nat i @ ''] '' @ text)
                     (zip [1 ..< Suc (length results)] results)))"

definition memory_execute :: "env \<Rightarrow> world \<times> AgentState \<Rightarrow> world \<times> AgentState" where
  "memory_execute e ws =
     (let w1 = store_current_context e (fst ws) (snd ws); state = snd ws;
          w2 = (if user_input state \<noteq> [] then called w1 else w1);
          state1 = (if user_input state \<noteq> []
                    then state\<lparr>retrieved_context :=
                                  Some (retrieve_relevant_context e w1 (user_input state))\<rparr>
                    else state);
          history = conversation_history state1 @ [(''user'', user_input state1)]
      in (w2, state1\<lparr>conversation_history :=
                        (case final_output state1 of
                           None \<Rightarrow> history
                         | Some out \<Rightarrow> if out = [] then history
                                       else history @ [(''assistant'', out)])\<rparr>))"

section \<open>Orchestrator (core/orchestrator.py)\<close>

datatype node = Planner | Executor | Validator | Memory | END

definition route_from_planner :: "AgentState \<Rightarrow> string" where
  "route_from_planner state =
     (if next_agent state = ''end'' \<or> task_plan state = [] then ''end'' else ''executor'')"

definition route_from_executor :: "AgentState \<Rightarrow> string" where
  "route_from_executor state =
     (if next_agent state = ''executor'' then ''executor''
      else if next_agent state = ''validator'' then ''validator''
      else ''end'')"

definition route_from_validator :: "AgentState \<Rightarrow> string" where
  "route_from_validator state =
     (if is_complete state
      then (if validation_passed state then ''memory'' else ''end'')
      else ''executor'')"

text \<open>The conditional edges added in \<open>_build_workflow\<close>; memory has a plain edge to the end.\<close>

definition edges :: "node \<Rightarrow> node dict" where
  "edges n =
     (case n of
        Planner \<Rightarrow> [(''executor'', Executor), (''end'', END)]
      | Executor \<Rightarrow> [(''executor'', Executor), (''validator'', Validator), (''end'', END)]
      | Validator \<Rightarrow> [(''executor'', Executor), (''memory'', Memory), (''end'', END)]
      | _ \<Rightarrow> [])"

definition follow :: "node \<Rightarrow> string \<Rightarrow> string + node" where
  "follow n route =
     (case dict_get (edges n) route of
        None \<Rightarrow> Inl (''KeyError: '' @ route)
      | Some n' \<Rightarrow> Inr n')"

text \<open>
  \<open>tool_calls\<close>, \<open>conversation_history\<close>, \<open>errors\<close> and \<open>warnings\<close> are declared in
  \<open>AgentState\<close> as \<open>Annotated[List[...], operator.add]\<close>: for these four fields the
  graph library does not replace the list it holds by the list a node returns, it adds
  the returned list to the held one. Every agent appends in place to the list the graph
  holds and returns the whole state, so both operands are the list as the node left it:
  after each node the list is followed by a copy of itself. The other fields are
  replaced by the returned value.
\<close>

definition merge :: "AgentState \<Rightarrow> AgentState" where
  "merge returned =
     returned\<lparr>tool_calls := tool_calls returned @ tool_calls returned,
              conversation_history := conversation_history returned @ conversation_history returned,
              errors := errors returned @ errors returned,
              warnings := warnings returned @ warnings returned\<rparr>"

definition run_node :: "(world \<times> AgentState \<Rightarrow> world \<times> AgentState)
                          \<Rightarrow> world \<times> AgentState \<Rightarrow> world \<times> AgentState" where
  "run_node f ws = (fst (f ws), merge (snd (f ws)))"

text \<open>
  The compiled graph is run by the graph library. Starting at the entry point it calls
  the function of the current node on the state, merges what the node returns, asks the
  node's routing function for the edge to follow and moves on, until it reaches \<open>END\<close>.
  \<open>graph_step\<close> is one such step. The library raises an error unless the run ends
  after fewer than \<open>limit\<close> nodes (its recursion limit, 25 when \<open>invoke\<close> is called
  without a configuration, as \<open>run\<close> does): a run of exactly \<open>limit\<close> nodes is
  refused. \<open>invoke\<close> also returns the nodes that were run, in order.
\<close>

definition graph_step :: "env \<Rightarrow> node \<Rightarrow> world \<times> AgentState \<Rightarrow> string + (node \<times> world \<times> AgentState)" where
  "graph_step e n ws =
     (case n of
        Planner \<Rightarrow>
          (let ws' = run_node (planner_execute e) ws
           in case follow Planner (route_from_planner (snd ws')) of
                Inl ex \<Rightarrow> Inl ex | Inr n' \<Rightarrow> Inr (n', ws'))
      | Executor \<Rightarrow>
          (let ws' = run_node (executor_execute e) ws
           in case follow Executor (route_from_executor (snd ws')) of
                Inl ex \<Rightarrow> Inl ex | Inr n' \<Rightarrow> Inr (n', ws'))
      | Validator \<Rightarrow>
          (let ws' = run_node (validator_execute e) ws
           in case follow Validator (route_from_validator (snd ws')) of
                Inl ex \<Rightarrow> Inl ex | Inr n' \<Rightarrow> Inr (n', ws'))
      | Memory \<Rightarrow> Inr (END, run_node (memory_execute e) ws)
      | END \<Rightarrow> Inr (END, ws))"

fun invoke :: "env \<Rightarrow> nat \<Rightarrow> node \<Rightarrow> world \<times> AgentState \<Rightarrow> node list
                 \<Rightarrow> string + (node list \<times> world \<times> AgentState)" where
  "invoke e limit END ws trace = Inr (trace, ws)"
| "invoke e 0 n ws trace = Inl ''Recursion limit reached''"
| "invoke e (Suc 0) n ws trace = Inl ''Recursion limit reached''"
| "invoke e (Suc (Suc limit)) n ws trace =
     (case graph_step e n ws of
        Inl ex \<Rightarrow> Inl ex
      | Inr (n', ws') \<Rightarrow> invoke e (Suc limit) n' ws' (trace @ [n]))"

record outcome =
  out_success :: bool
  out_output :: "string option"
  out_validation_passed :: bool
  out_iterations :: int
  out_errors :: "string list"
  out_warnings :: "string list"

definition run_workflow :: "env \<Rightarrow> nat \<Rightarrow> world \<Rightarrow> string
                              \<Rightarrow> string + (node list \<times> world \<times> AgentState)" where
  "run_workflow e limit w input = invoke e limit Planner (w, create_initial_state input) []"

definition run :: "env \<Rightarrow> nat \<Rightarrow> world \<Rightarrow> string \<Rightarrow> outcome" where
  "run e limit w input =
     (case run_workflow e limit w input of
        Inr (trace, w', final_state) \<Rightarrow>
          \<lparr> out_success = True,
            out_output = final_output final_state,
            out_validation_passed = validation_passed final_state,
            out_iterations = iteration_count final_state,
            out_errors = errors final_state,
            out_warnings = warnings final_state \<rparr>
      | Inl ex \<Rightarrow>
          \<lparr> out_success = False,
            out_output = Some (''Workflow failed: '' @ ex),
            out_validation_passed = False,
            out_iterations = 0,
            out_errors = [ex],
            out_warnings = [] \<rparr>)"

text \<open>
  The configurations a run goes through: the node about to run, with the world and the
  state it will receive.
\<close>

inductive reachable :: "env \<Rightarrow> node \<times> world \<times> AgentState \<Rightarrow> bool" for e :: env where
  start: "reachable e (Planner, w, create_initial_state input)"
| step: "reachable e (n, ws) \<Longrightarrow> graph_step e n ws = Inr (n', ws') \<Longrightarrow> reachable e (n', ws')"

text \<open>
  The execution steps of a run that ended with the task at the cursor Completed:
  \<open>completed_entry\<close> is the task id and result of such a step (and nothing for any
  other step), and \<open>history e c h\<close> says that the run reaches the configuration \<open>c\<close>
  with \<open>h\<close> listing these pairs for the steps taken so far.
\<close>

definition completed_entry :: "env \<Rightarrow> node \<Rightarrow> world \<times> AgentState \<Rightarrow> (string \<times> string) list" where
  "completed_entry e n ws =
     (if n = Executor \<and> current_task_index (snd ws) < length (task_plan (snd ws))
      then (let task = task_plan (snd (executor_execute e ws)) ! current_task_index (snd ws)
            in case result task of
                 None \<Rightarrow> []
               | Some r \<Rightarrow> if status task = COMPLETED then [(id' task, r)] else [])
      else [])"

inductive history :: "env \<Rightarrow> node \<times> world \<times> AgentState \<Rightarrow> (string \<times> string) list \<Rightarrow> bool"
  for e :: env where
  start: "history e (Planner, w, create_initial_state input) []"
| step: "history e (n, ws) h \<Longrightarrow> graph_step e n ws = Inr (n', ws')
         \<Longrightarrow> history e (n', ws') (h @ completed_entry e n ws)"

text \<open>
  What an agent does, and where the graph goes next, depends on the four accumulated
  lists only through the entries of \<open>tool_calls\<close> and through whether \<open>errors\<close> is
  empty. Two states agree when they are equal in every other field, hold the same
  entries in \<open>tool_calls\<close> and are both with or both without errors.
\<close>

definition agree :: "AgentState \<Rightarrow> AgentState \<Rightarrow> bool" where
  "agree s s' \<longleftrightarrow>
     user_input s = user_input s' \<and> user_goal s = user_goal s'
     \<and> task_plan s = task_plan s' \<and> current_task_index s = current_task_index s'
     \<and> current_task s = current_task s' \<and> execution_results s = execution_results s'
     \<and> validation_result s = validation_result s'
     \<and> validation_passed s = validation_passed s' \<and> retry_count s = retry_count s'
     \<and> retrieved_context s = retrieved_context s' \<and> next_agent s = next_agent s'
     \<and> iteration_count s = iteration_count s' \<and> is_complete s = is_complete s'
     \<and> final_output s = final_output s'
     \<and> set (tool_calls s) = set (tool_calls s') \<and> (errors s = [] \<longleftrightarrow> errors s' = [])"

section \<open>Example collaborators and states\<close>

text \<open>
  A registry holding one calculator that answers \<open>8\<close> and reports a failure for
  \<open>1 / 0\<close>, a decision step that always gives the same response, a scorer that always
  gives the same verdict, and a vector store that accepts everything.
\<close>

definition calculator :: BaseTool where
  "calculator =
     \<lparr> name = ''calculator'',
       tool_description = ''Evaluate mathematical expressions safely.'',
       tool_execute = (\<lambda>t input. if input = ''1 / 0''
          then Inr \<lparr>success = False, result_text = ''None'', error_text = ''Division by zero''\<rparr>
          else Inr \<lparr>success = True, result_text = ''8'', error_text = ''None''\<rparr>) \<rparr>"

definition example_env :: "plan_item list \<Rightarrow> string \<Rightarrow> verdict \<Rightarrow> env" where
  "example_env task_dicts response v =
     \<lparr> planner_llm = (\<lambda>t prompt. Inr task_dicts),
       executor_llm = (\<lambda>t prompt. Inr response),
       validator_llm = (\<lambda>t prompt. Inr v),
       tools = [calculator],
       threshold = 0.8,
       store_add_text = (\<lambda>t text. True),
       store_save = (\<lambda>t. True),
       store_search = (\<lambda>t query. []) \<rparr>"

definition world0 :: world where
  "world0 = \<lparr>tick = 0, invocations = [], stored = [], saves = 0\<rparr>"

text \<open>A plan whose second task depends on an id that no task carries, and a plan of one task.\<close>

definition two_tasks :: "plan_item list" where
  "two_tasks =
     [\<lparr>item_id = ''task_1'', item_description = ''Compute 5 + 3'',
       item_agent = None, item_dependencies = None\<rparr>,
      \<lparr>item_id = ''task_2'', item_description = ''Double it'',
       item_agent = Some ''executor'', item_dependencies = Some [''task_9'']\<rparr>]"

definition one_task :: "plan_item list" where
  "one_task = [\<lparr>item_id = ''task_1'', item_description = ''Compute 5 + 3'',
                item_agent = None, item_dependencies = None\<rparr>]"

definition rejecting :: verdict where
  "rejecting = \<lparr>valid = False, score = 0, feedback = ''incomplete''\<rparr>"

definition add_call :: string where
  "add_call = ''TOOL: calculator | INPUT: 5 + 3''"

definition failing_call :: string where
  "failing_call = ''TOOL: calculator | INPUT: 1 / 0''"

definition unknown_call :: string where
  "unknown_call = ''TOOL: web_search | INPUT: weather''"

definition example_state :: "Task list \<Rightarrow> nat \<Rightarrow> AgentState" where
  "example_state plan i =
     (create_initial_state ''go'')\<lparr>task_plan := plan, current_task_index := i,
                                   next_agent := ''executor''\<rparr>"

text \<open>
  A decision step that changes its mind: it asks for the calculator up to the first
  retry and answers by itself afterwards. \<open>first_pass\<close> is what the agents return when
  they are called one after the other on the two-task plan, planner, executor, executor
  (the first task Completed, the second Failed on its dependency); \<open>retry_pass\<close> is
  what the validator and then the executor return from there.
\<close>

definition fickle_env :: env where
  "fickle_env = (example_env two_tasks add_call rejecting)
     \<lparr>executor_llm := (\<lambda>t prompt. if t < 4 then Inr add_call else Inr ''The answer is 7'')\<rparr>"

definition first_pass :: "world \<times> AgentState" where
  "first_pass = executor_execute fickle_env (executor_execute fickle_env
                  (planner_execute fickle_env (world0, create_initial_state ''go'')))"

definition retry_pass :: "world \<times> AgentState" where
  "retry_pass = executor_execute fickle_env (validator_execute fickle_env first_pass)"

text \<open>A state with the retry budget used up.\<close>

definition exhausted_state :: AgentState where
  "exhausted_state = (snd first_pass)\<lparr>retry_count := 2\<rparr>"

text \<open>
  The same two-task run inside the graph: the configuration after the planner and the
  first execution step, where the second task is about to fail, and the configuration
  in which the validator is entered for the first time.
\<close>

definition second_task_next :: "world \<times> AgentState" where
  "second_task_next = run_node (executor_execute fickle_env)
                        (run_node (planner_execute fickle_env) (world0, create_initial_state ''go''))"

definition first_validation :: "world \<times> AgentState" where
  "first_validation = run_node (executor_execute fickle_env) second_task_next"

text \<open>The one-task run inside the graph, when the validator is entered.\<close>

definition calculated :: "world \<times> AgentState" where
  "calculated = run_node (executor_execute (example_env one_task add_call rejecting))
                  (run_node (planner_execute (example_env one_task add_call rejecting))
                     (world0, create_initial_state ''go''))"

text \<open>A decision step that answers the one task itself and mentions the calculator.\<close>

definition own_answer :: string where
  "own_answer = ''No calculator is needed: 5 + 3 = 8''"

definition answered :: "world \<times> AgentState" where
  "answered = run_node (executor_execute (example_env one_task own_answer rejecting))
                (run_node (planner_execute (example_env one_task own_answer rejecting))
                   (world0, create_initial_state ''go''))"

section \<open>Execution engine\<close>

lemma check_dependencies_unmet:
  assumes "dep_id \<in> set (dependencies task)"
    and "case find (\<lambda>t. id' t = dep_id) (task_plan state) of
           None \<Rightarrow> True | Some dep_task \<Rightarrow> status dep_task \<noteq> COMPLETED"
  shows "\<not> check_dependencies task state"
  unfolding check_dependencies_def list_all_iff
  using assms by (auto split: option.splits intro!: bexI[of _ dep_id])

text \<open>The four ways through \<open>execute\<close>.\<close>

lemma executor_execute_exhausted:
  assumes "\<not> current_task_index state < length (task_plan state)"
  shows "executor_execute e (w, state) = (w, state\<lparr>next_agent := ''validator''\<rparr>)"
  using assms by (simp add: executor_execute_def Let_def)

lemma executor_execute_unmet:
  assumes "current_task_index state < length (task_plan state)"
    and "\<not> check_dependencies (task_plan state ! current_task_index state) state"
  shows "executor_execute e (w, state) = (w, dependencies_not_met state (current_task_index state))"
  using assms by (simp add: executor_execute_def Let_def)

lemma executor_execute_raised:
  assumes "current_task_index state < length (task_plan state)"
    and "check_dependencies (task_plan state ! current_task_index state) state"
    and "decision e w state = Inl ex"
  shows "executor_execute e (w, state)
       = (called w, execution_failed (in_progress state (current_task_index state))
            (current_task_index state) ex)"
  using assms by (simp add: executor_execute_def decision_def Let_def)

lemma executor_execute_answered:
  assumes "current_task_index state < length (task_plan state)"
    and "check_dependencies (task_plan state ! current_task_index state) state"
    and "decision e w state = Inr r"
  shows "executor_execute e (w, state)
       = (fst (execute_with_tools e (called w) r),
          task_done (in_progress state (current_task_index state)) (current_task_index state)
            (snd (execute_with_tools e (called w) r)))"
  using assms by (simp add: executor_execute_def decision_def Let_def)

lemma task_done_fields:
  assumes "i < length (task_plan state)" and "current_task_index state = i"
  shows "status (task_plan (task_done (in_progress state i) i res) ! i) = COMPLETED"
    and "result (task_plan (task_done (in_progress state i) i res) ! i) = Some res"
    and "error (task_plan (task_done (in_progress state i) i res) ! i) = error (task_plan state ! i)"
    and "errors (task_done (in_progress state i) i res) = errors state"
    and "current_task_index (task_done (in_progress state i) i res) = i + 1"
    and "next_agent (task_done (in_progress state i) i res)
           = (if i + 1 < length (task_plan state) then ''executor'' else ''validator'')"
    and "tool_calls (task_done (in_progress state i) i res) = tool_calls state @
           [\<lparr>tc_task_id = id' (task_plan state ! i),
             tc_description = description (task_plan state ! i), tc_result = res\<rparr>]"
    and "execution_results (task_done (in_progress state i) i res)
           = dict_set (execution_results state) (id' (task_plan state ! i)) res"
    and "id' (task_plan (task_done (in_progress state i) i res) ! i) = id' (task_plan state ! i)"
  using assms by (simp_all add: task_done_def in_progress_def Let_def)

text \<open>Facts about the example states, used by the closed theorems below.\<close>

lemma example_index:
  "current_task_index (example_state plan i) = i"
  "task_plan (example_state plan i) = plan"
  by (simp_all add: example_state_def)

lemma example_first_task_free:
  "check_dependencies (map to_task two_tasks ! 0) (example_state (map to_task two_tasks) 0)"
  by (simp add: check_dependencies_def two_tasks_def to_task_def)

lemma example_decision:
  "decision (example_env task_dicts response v) w state = Inr response"
  by (simp add: decision_def example_env_def)

lemma example_registry:
  "dict_get (tools_dict (example_env task_dicts response v)) ''calculator'' = Some calculator"
  "dict_get (tools_dict (example_env task_dicts response v)) ''web_search'' = None"
  by (simp_all add: tools_dict_def example_env_def dict_get_def calculator_def)

lemma example_parses:
  "parse_tool_call failing_call = Some (''calculator'', ''1 / 0'')"
  "parse_tool_call unknown_call = Some (''web_search'', ''weather'')"
  by code_simp+

text \<open>
  C6. When the task at the cursor lists a dependency id that no task of the plan carries,
  or whose task is not Completed, the execution step marks the task Failed, appends the
  error \<open>Dependencies not met for <id>\<close> to the errors, sets the next stage to the
  validator and leaves the world as it was: no model call and no tool invocation. The
  index of the task is arbitrary.
\<close>

theorem unmet_dependency_fails_task:
  assumes "current_task_index state < length (task_plan state)"
    and "dep_id \<in> set (dependencies (task_plan state ! current_task_index state))"
    and "case find (\<lambda>t. id' t = dep_id) (task_plan state) of
           None \<Rightarrow> True | Some dep_task \<Rightarrow> status dep_task \<noteq> COMPLETED"
  shows "fst (executor_execute e (w, state)) = w
       \<and> status (task_plan (snd (executor_execute e (w, state))) ! current_task_index state) = FAILED
       \<and> errors (snd (executor_execute e (w, state)))
           = errors state @ [''Dependencies not met for '' @ id' (task_plan state ! current_task_index state)]
       \<and> next_agent (snd (executor_execute e (w, state))) = ''validator''
       \<and> tool_calls (snd (executor_execute e (w, state))) = tool_calls state
       \<and> execution_results (snd (executor_execute e (w, state))) = execution_results state
       \<and> current_task_index (snd (executor_execute e (w, state))) = current_task_index state"
proof -
  have "\<not> check_dependencies (task_plan state ! current_task_index state) state"
    using assms(2,3) by (rule check_dependencies_unmet)
  with assms(1) have "executor_execute e (w, state)
      = (w, dependencies_not_met state (current_task_index state))"
    by (rule executor_execute_unmet)
  with assms(1) show ?thesis
    by (simp add: dependencies_not_met_def Let_def)
qed

text \<open>The second task of the example plan depends on \<open>task_9\<close>, which the plan lacks.\<close>

theorem unmet_dependency_fails_task_witness:
  "current_task_index (example_state (map to_task two_tasks) 1)
     < length (task_plan (example_state (map to_task two_tasks) 1))
   \<and> ''task_9'' \<in> set (dependencies (task_plan (example_state (map to_task two_tasks) 1) ! 1))
   \<and> find (\<lambda>t. id' t = ''task_9'') (task_plan (example_state (map to_task two_tasks) 1)) = None
   \<and> fst (executor_execute (example_env two_tasks add_call rejecting)
            (world0, example_state (map to_task two_tasks) 1)) = world0
   \<and> status (task_plan (snd (executor_execute (example_env two_tasks add_call rejecting)
            (world0, example_state (map to_task two_tasks) 1))) ! 1) = FAILED
   \<and> errors (snd (executor_execute (example_env two_tasks add_call rejecting)
            (world0, example_state (map to_task two_tasks) 1))) = [''Dependencies not met for task_2'']"
  using unmet_dependency_fails_task [of "example_state (map to_task two_tasks) 1" "''task_9''"
      "example_env two_tasks add_call rejecting" world0]
  by (simp add: example_state_def create_initial_state_def two_tasks_def to_task_def)

text \<open>
  C9. When the response of the decision step names a tool that the registry does not
  hold, no tool is invoked (the only external call of the step is the model call), the
  response itself becomes the result of the task, the task is Completed, nothing is
  added to the errors, and the cursor moves to the next task: the next stage is the
  executor when tasks remain and the validator otherwise.
\<close>

theorem unknown_tool_is_direct_answer:
  assumes "current_task_index state < length (task_plan state)"
    and "check_dependencies (task_plan state ! current_task_index state) state"
    and "decision e w state = Inr r"
    and "parse_tool_call r = Some (tool_name, tool_input)"
    and "dict_get (tools_dict e) tool_name = None"
  shows "fst (executor_execute e (w, state)) = called w
       \<and> invocations (fst (executor_execute e (w, state))) = invocations w
       \<and> result (task_plan (snd (executor_execute e (w, state))) ! current_task_index state) = Some r
       \<and> status (task_plan (snd (executor_execute e (w, state))) ! current_task_index state) = COMPLETED
       \<and> errors (snd (executor_execute e (w, state))) = errors state
       \<and> current_task_index (snd (executor_execute e (w, state))) = current_task_index state + 1
       \<and> next_agent (snd (executor_execute e (w, state)))
           = (if current_task_index state + 1 < length (task_plan state)
              then ''executor'' else ''validator'')"
proof -
  have "execute_with_tools e (called w) r = (called w, r)"
    using assms(4,5) by (simp add: execute_with_tools_def)
  then have "executor_execute e (w, state)
      = (called w, task_done (in_progress state (current_task_index state))
                     (current_task_index state) r)"
    using executor_execute_answered [OF assms(1-3)] by simp
  then show ?thesis
    using task_done_fields [OF assms(1) refl, of r] by (simp add: called_def)
qed

theorem unknown_tool_is_direct_answer_witness:
  "current_task_index (example_state (map to_task two_tasks) 0)
     < length (task_plan (example_state (map to_task two_tasks) 0))
   \<and> check_dependencies (map to_task two_tasks ! 0) (example_state (map to_task two_tasks) 0)
   \<and> decision (example_env two_tasks unknown_call rejecting) world0
        (example_state (map to_task two_tasks) 0) = Inr unknown_call
   \<and> parse_tool_call unknown_call = Some (''web_search'', ''weather'')
   \<and> dict_get (tools_dict (example_env two_tasks unknown_call rejecting)) ''web_search'' = None
   \<and> invocations (fst (executor_execute (example_env two_tasks unknown_call rejecting)
        (world0, example_state (map to_task two_tasks) 0))) = []
   \<and> result (task_plan (snd (executor_execute (example_env two_tasks unknown_call rejecting)
        (world0, example_state (map to_task two_tasks) 0))) ! 0) = Some unknown_call
   \<and> status (task_plan (snd (executor_execute (example_env two_tasks unknown_call rejecting)
        (world0, example_state (map to_task two_tasks) 0))) ! 0) = COMPLETED
   \<and> current_task_index (snd (executor_execute (example_env two_tasks unknown_call rejecting)
        (world0, example_state (map to_task two_tasks) 0))) = 1
   \<and> next_agent (snd (executor_execute (example_env two_tasks unknown_call rejecting)
        (world0, example_state (map to_task two_tasks) 0))) = ''executor''"
proof -
  have h1: "current_task_index (example_state (map to_task two_tasks) 0)
     < length (task_plan (example_state (map to_task two_tasks) 0))"
    by (simp add: example_state_def two_tasks_def)
  have h2: "check_dependencies (task_plan (example_state (map to_task two_tasks) 0) !
        current_task_index (example_state (map to_task two_tasks) 0))
        (example_state (map to_task two_tasks) 0)"
    using example_first_task_free by (simp add: example_index)
  from unknown_tool_is_direct_answer [where e = "example_env two_tasks unknown_call rejecting"
      and w = world0, OF h1 h2 example_decision example_parses(2) example_registry(2)] h1 example_first_task_free example_decision example_parses(2)
    example_registry(2)
  show ?thesis by (simp add: example_index world0_def called_def two_tasks_def)
qed

text \<open>
  C1. When the response of the decision step names a registered tool, the tool is invoked
  once, and whatever it reports the task is Completed: a reported failure becomes the
  result text \<open>Tool <name> failed: <error>\<close>, a success becomes
  \<open>Tool <name> executed successfully:\<close> followed by the tool's result. The status is
  never Failed on this path, the task's error field is left as it was and nothing is
  added to the errors.
\<close>

theorem tool_outcome_completes_task:
  assumes "current_task_index state < length (task_plan state)"
    and "check_dependencies (task_plan state ! current_task_index state) state"
    and "decision e w state = Inr r"
    and "parse_tool_call r = Some (tool_name, tool_input)"
    and "dict_get (tools_dict e) tool_name = Some tool"
    and "tool_execute tool (tick w + 1) tool_input = Inr tool_result"
  shows "invocations (fst (executor_execute e (w, state))) = invocations w @ [(tool_name, tool_input)]
       \<and> status (task_plan (snd (executor_execute e (w, state))) ! current_task_index state) = COMPLETED
       \<and> result (task_plan (snd (executor_execute e (w, state))) ! current_task_index state)
           = Some (if success tool_result
                   then ''Tool '' @ tool_name @ '' executed successfully:'' @ nl @ result_text tool_result
                   else ''Tool '' @ tool_name @ '' failed: '' @ error_text tool_result)
       \<and> error (task_plan (snd (executor_execute e (w, state))) ! current_task_index state)
           = error (task_plan state ! current_task_index state)
       \<and> errors (snd (executor_execute e (w, state))) = errors state"
proof -
  let ?res = "if success tool_result
                   then ''Tool '' @ tool_name @ '' executed successfully:'' @ nl @ result_text tool_result
                   else ''Tool '' @ tool_name @ '' failed: '' @ error_text tool_result"
  let ?w = "called ((called w)\<lparr>invocations := invocations (called w) @ [(tool_name, tool_input)]\<rparr>)"
  have "execute_with_tools e (called w) r = (?w, ?res)"
    using assms(4-6) by (simp add: execute_with_tools_def called_def Let_def)
  then have "executor_execute e (w, state)
      = (?w, task_done (in_progress state (current_task_index state))
                     (current_task_index state) ?res)"
    using executor_execute_answered [OF assms(1-3)] by simp
  then show ?thesis
    using task_done_fields [OF assms(1) refl, of ?res] by (simp add: called_def)
qed

theorem tool_outcome_completes_task_witness:
  "current_task_index (example_state (map to_task two_tasks) 0)
     < length (task_plan (example_state (map to_task two_tasks) 0))
   \<and> check_dependencies (map to_task two_tasks ! 0) (example_state (map to_task two_tasks) 0)
   \<and> decision (example_env two_tasks failing_call rejecting) world0
        (example_state (map to_task two_tasks) 0) = Inr failing_call
   \<and> parse_tool_call failing_call = Some (''calculator'', ''1 / 0'')
   \<and> dict_get (tools_dict (example_env two_tasks failing_call rejecting)) ''calculator''
        = Some calculator
   \<and> tool_execute calculator (tick world0 + 1) ''1 / 0''
        = Inr \<lparr>success = False, result_text = ''None'', error_text = ''Division by zero''\<rparr>
   \<and> invocations (fst (executor_execute (example_env two_tasks failing_call rejecting)
        (world0, example_state (map to_task two_tasks) 0))) = [(''calculator'', ''1 / 0'')]
   \<and> status (task_plan (snd (executor_execute (example_env two_tasks failing_call rejecting)
        (world0, example_state (map to_task two_tasks) 0))) ! 0) = COMPLETED
   \<and> result (task_plan (snd (executor_execute (example_env two_tasks failing_call rejecting)
        (world0, example_state (map to_task two_tasks) 0))) ! 0)
        = Some ''Tool calculator failed: Division by zero''"
proof -
  have h1: "current_task_index (example_state (map to_task two_tasks) 0)
     < length (task_plan (example_state (map to_task two_tasks) 0))"
    by (simp add: example_state_def two_tasks_def)
  have h2: "check_dependencies (task_plan (example_state (map to_task two_tasks) 0) !
        current_task_index (example_state (map to_task two_tasks) 0))
        (example_state (map to_task two_tasks) 0)"
    using example_first_task_free by (simp add: example_index)
  have h6: "tool_execute calculator (tick world0 + 1) ''1 / 0''
        = Inr \<lparr>success = False, result_text = ''None'', error_text = ''Division by zero''\<rparr>"
    by (simp add: calculator_def)
  from tool_outcome_completes_task [where e = "example_env two_tasks failing_call rejecting"
      and w = world0, OF h1 h2 example_decision example_parses(1) example_registry(1) h6] h1 example_first_task_free example_decision example_parses(1)
    example_registry(1) h6
  show ?thesis by (simp add: example_index world0_def)
qed

text \<open>
  The claim as worded (a reported failure sets the status to Failed) does not hold: the
  calculator is invoked on \<open>1 / 0\<close>, reports \<open>success = False\<close>, and the task ends
  Completed with no entry in the errors.
\<close>

theorem tool_failure_status_counterexample:
  "success (projr (tool_execute calculator 1 ''1 / 0'')) = False
   \<and> invocations (fst (executor_execute (example_env two_tasks failing_call rejecting)
        (world0, example_state (map to_task two_tasks) 0))) = [(''calculator'', ''1 / 0'')]
   \<and> status (task_plan (snd (executor_execute (example_env two_tasks failing_call rejecting)
        (world0, example_state (map to_task two_tasks) 0))) ! 0) \<noteq> FAILED
   \<and> errors (snd (executor_execute (example_env two_tasks failing_call rejecting)
        (world0, example_state (map to_task two_tasks) 0))) = []"
  by code_simp

text \<open>What each stage does to the tool log and to the stored results.\<close>

lemma validator_keeps_log:
  "tool_calls (snd (validator_execute e ws)) = tool_calls (snd ws)
   \<and> execution_results (snd (validator_execute e ws)) = execution_results (snd ws)"
  by (simp add: validator_execute_def auto_validated_def validation_error_def decide_def Let_def
           split: sum.splits)

lemma planner_keeps_log:
  "tool_calls (snd (planner_execute e ws)) = tool_calls (snd ws)
   \<and> execution_results (snd (planner_execute e ws)) = execution_results (snd ws)"
  by (simp add: planner_execute_def Let_def split: sum.splits)

lemma memory_keeps_log:
  "tool_calls (snd (memory_execute e ws)) = tool_calls (snd ws)
   \<and> execution_results (snd (memory_execute e ws)) = execution_results (snd ws)"
  by (simp add: memory_execute_def Let_def split: option.splits)

lemma executor_log_cases:
  "(tool_calls (snd (executor_execute e (w, state))) = tool_calls state
      \<and> execution_results (snd (executor_execute e (w, state))) = execution_results state)
   \<or> (current_task_index state < length (task_plan state)
      \<and> status (task_plan (snd (executor_execute e (w, state))) ! current_task_index state) = COMPLETED
      \<and> id' (task_plan (snd (executor_execute e (w, state))) ! current_task_index state)
          = id' (task_plan state ! current_task_index state)
      \<and> (\<exists>res. result (task_plan (snd (executor_execute e (w, state))) ! current_task_index state) = Some res
            \<and> tool_calls (snd (executor_execute e (w, state))) = tool_calls state @
                 [\<lparr>tc_task_id = id' (task_plan state ! current_task_index state),
                   tc_description = description (task_plan state ! current_task_index state),
                   tc_result = res\<rparr>]
            \<and> execution_results (snd (executor_execute e (w, state)))
                 = dict_set (execution_results state) (id' (task_plan state ! current_task_index state)) res))"
proof (cases "current_task_index state < length (task_plan state)")
  case False
  then show ?thesis by (simp add: executor_execute_exhausted)
next
  case inside: True
  show ?thesis
  proof (cases "check_dependencies (task_plan state ! current_task_index state) state")
    case False
    with inside show ?thesis
      by (simp add: executor_execute_unmet dependencies_not_met_def Let_def)
  next
    case met: True
    show ?thesis
    proof (cases "decision e w state")
      case (Inl ex)
      with inside met show ?thesis
        by (simp add: executor_execute_raised execution_failed_def in_progress_def Let_def)
    next
      case (Inr r)
      with inside met show ?thesis
        using task_done_fields [OF inside refl]
        by (simp add: executor_execute_answered)
    qed
  qed
qed


section \<open>Quality gate\<close>

lemma reset_failed_nth:
  assumes "i < length plan"
  shows "reset_failed plan ! i
       = (if status (plan ! i) = FAILED then (plan ! i)\<lparr>status := PENDING\<rparr> else plan ! i)"
  using assms by (simp add: reset_failed_def)

lemma length_reset_failed: "length (reset_failed plan) = length plan"
  by (simp add: reset_failed_def)

lemma validator_plan:
  "task_plan (snd (validator_execute e ws)) = task_plan (snd ws)
   \<or> task_plan (snd (validator_execute e ws)) = reset_failed (task_plan (snd ws))"
  by (simp add: validator_execute_def auto_validated_def validation_error_def decide_def Let_def
           split: sum.splits)

text \<open>The ways through the validator's \<open>execute\<close>.\<close>

lemma validator_execute_fast:
  assumes "is_simple_calculator_task state"
  shows "validator_execute e (w, state) = (w, auto_validated state)"
  using assms by (simp add: validator_execute_def)

lemma validator_execute_nothing:
  assumes "\<not> is_simple_calculator_task state"
    and "\<forall>t \<in> set (task_plan state). status t \<noteq> COMPLETED \<and> status t \<noteq> FAILED"
  shows "validator_execute e (w, state)
       = (w, state\<lparr>validation_passed := False, next_agent := ''end'', is_complete := True\<rparr>)"
  using assms by (simp add: validator_execute_def Let_def filter_empty_conv)

lemma validator_execute_scored:
  assumes "\<not> is_simple_calculator_task state"
    and "\<exists>t \<in> set (task_plan state). status t = COMPLETED \<or> status t = FAILED"
    and "scoring e w state = Inr v"
  shows "validator_execute e (w, state) = (called w, decide e state v)"
proof -
  have "\<not> (filter (\<lambda>t. status t = COMPLETED) (task_plan state) = []
          \<and> filter (\<lambda>t. status t = FAILED) (task_plan state) = [])"
    using assms(2) by (auto simp: filter_empty_conv)
  then show ?thesis
    using assms(1,3)
    by (auto simp: validator_execute_def scoring_def Let_def split: sum.splits)
qed

text \<open>
  C8. The reset before a retry changes Failed tasks only: a task that is not Failed
  (a Completed one in particular) is the same task afterwards, with its status, result
  and error, and the plan keeps its length. The same holds for the whole validation
  step, whose only change to the plan is this reset.
\<close>

theorem retry_reset_changes_failed_only:
  assumes "i < length (task_plan state)"
    and "status (task_plan state ! i) \<noteq> FAILED"
  shows "reset_failed (task_plan state) ! i = task_plan state ! i
       \<and> length (reset_failed (task_plan state)) = length (task_plan state)
       \<and> task_plan (snd (validator_execute e (w, state))) ! i = task_plan state ! i
       \<and> length (task_plan (snd (validator_execute e (w, state)))) = length (task_plan state)"
  using assms validator_plan [of e "(w, state)"]
  by (auto simp: reset_failed_nth length_reset_failed)

text \<open>
  After the first pass of the example run the first task is Completed and the second
  Failed; the validator rejects and resets: the first task is untouched, the second is
  Pending again.
\<close>

theorem retry_reset_changes_failed_only_witness:
  "0 < length (task_plan (snd first_pass))
   \<and> status (task_plan (snd first_pass) ! 0) \<noteq> FAILED
   \<and> status (task_plan (snd first_pass) ! 1) = FAILED
   \<and> task_plan (snd (validator_execute fickle_env first_pass)) ! 0 = task_plan (snd first_pass) ! 0
   \<and> status (task_plan (snd (validator_execute fickle_env first_pass)) ! 1) = PENDING"
proof -
  have h1: "0 < length (task_plan (snd first_pass))" by code_simp
  have h2: "status (task_plan (snd first_pass) ! 0) \<noteq> FAILED" by code_simp
  have h3: "status (task_plan (snd first_pass) ! 1) = FAILED" by code_simp
  have h4: "status (task_plan (snd (validator_execute fickle_env first_pass)) ! 1) = PENDING"
    by code_simp
  from retry_reset_changes_failed_only [OF h1 h2, of fickle_env "fst first_pass"] h1 h2 h3 h4
  show ?thesis by simp
qed

lemma all_completed_conv:
  "length (filter P xs) = length xs \<longleftrightarrow> (\<forall>x \<in> set xs. P x)"
proof (induction xs)
  case Nil
  show ?case by simp
next
  case (Cons x xs)
  have le: "length (filter P xs) \<le> length xs" by (rule length_filter_le)
  show ?case
  proof (cases "P x")
    case True
    with Cons show ?thesis by simp
  next
    case False
    from le have "length (filter P xs) \<noteq> Suc (length xs)" by linarith
    with False show ?thesis by simp
  qed
qed

lemma is_simple_calculator_task_iff:
  "is_simple_calculator_task state \<longleftrightarrow>
     (\<forall>tool_call \<in> set (tool_calls state). contains ''calculator'' (lower (tc_result tool_call)))
     \<and> errors state = []
     \<and> (\<forall>t \<in> set (task_plan state). status t = COMPLETED)"
  by (simp add: is_simple_calculator_task_def list_all_iff all_completed_conv)


section \<open>Runs of the workflow\<close>

lemma merge_fields:
  "tool_calls (merge s) = tool_calls s @ tool_calls s"
  "errors (merge s) = errors s @ errors s"
  "warnings (merge s) = warnings s @ warnings s"
  "execution_results (merge s) = execution_results s"
  "task_plan (merge s) = task_plan s"
  "current_task_index (merge s) = current_task_index s"
  "retry_count (merge s) = retry_count s"
  "next_agent (merge s) = next_agent s"
  "is_complete (merge s) = is_complete s"
  "validation_passed (merge s) = validation_passed s"
  by (simp_all add: merge_def)

lemma run_node_parts:
  "fst (run_node f ws) = fst (f ws)"
  "snd (run_node f ws) = merge (snd (f ws))"
  by (simp_all add: run_node_def)

lemma graph_step_Planner:
  "graph_step e Planner ws =
     Inr (if route_from_planner (snd (planner_execute e ws)) = ''end'' then END else Executor,
          run_node (planner_execute e) ws)"
  by (simp add: graph_step_def route_from_planner_def follow_def edges_def dict_get_def Let_def
        run_node_parts merge_fields)

lemma graph_step_Executor:
  "graph_step e Executor ws =
     Inr (if next_agent (snd (executor_execute e ws)) = ''executor'' then Executor
          else if next_agent (snd (executor_execute e ws)) = ''validator'' then Validator
          else END, run_node (executor_execute e) ws)"
  by (simp add: graph_step_def route_from_executor_def follow_def edges_def dict_get_def Let_def
        run_node_parts merge_fields)

lemma graph_step_Validator:
  "graph_step e Validator ws =
     Inr (if is_complete (snd (validator_execute e ws))
          then (if validation_passed (snd (validator_execute e ws)) then Memory else END)
          else Executor, run_node (validator_execute e) ws)"
  by (simp add: graph_step_def route_from_validator_def follow_def edges_def dict_get_def Let_def
        run_node_parts merge_fields)

lemma graph_step_Memory: "graph_step e Memory ws = Inr (END, run_node (memory_execute e) ws)"
  by (simp add: graph_step_def)

lemma graph_step_cases:
  assumes "graph_step e n ws = Inr (n', ws')"
  obtains
    (planner) "n = Planner" "ws' = run_node (planner_execute e) ws"
      "n' = (if route_from_planner (snd (planner_execute e ws)) = ''end'' then END else Executor)"
  | (executor) "n = Executor" "ws' = run_node (executor_execute e) ws"
  | (validator) "n = Validator" "ws' = run_node (validator_execute e) ws"
  | (memory) "n = Memory" "ws' = run_node (memory_execute e) ws" "n' = END"
  | (finished) "n = END" "ws' = ws" "n' = END"
proof (cases n)
  case Planner
  with assms planner show ?thesis by (simp add: graph_step_Planner)
next
  case Executor
  with assms executor show ?thesis by (simp add: graph_step_Executor)
next
  case Validator
  with assms validator show ?thesis by (simp add: graph_step_Validator)
next
  case Memory
  with assms memory show ?thesis by (simp add: graph_step_Memory)
next
  case END
  with assms finished show ?thesis by (simp add: graph_step_def)
qed

lemma invoke_stop:
  "n \<noteq> END \<Longrightarrow> invoke e 0 n ws trace = Inl ''Recursion limit reached''"
  "n \<noteq> END \<Longrightarrow> invoke e (Suc 0) n ws trace = Inl ''Recursion limit reached''"
  by (cases n; simp)+

lemma invoke_Suc:
  "n \<noteq> END \<Longrightarrow> invoke e (Suc (Suc limit)) n ws trace =
     (case graph_step e n ws of
        Inl ex \<Rightarrow> Inl ex
      | Inr (n', ws') \<Rightarrow> invoke e (Suc limit) n' ws' (trace @ [n]))"
  by (cases n) (auto split: sum.splits)

lemma invoke_reachable:
  assumes "invoke e limit n ws trace = Inr (trace', ws')" and "reachable e (n, ws)"
  shows "reachable e (END, ws')"
  using assms
proof (induction limit arbitrary: n ws trace)
  case 0
  then show ?case by (cases "n = END") (simp_all add: invoke_stop)
next
  case (Suc limit)
  show ?case
  proof (cases "n = END")
    case True
    with Suc.prems show ?thesis by simp
  next
    case False
    show ?thesis
    proof (cases limit)
      case 0
      with False Suc.prems(1) show ?thesis by (simp add: invoke_stop)
    next
      case (Suc k)
      with False Suc.prems(1) obtain n1 ws1 where
        s: "graph_step e n ws = Inr (n1, ws1)" and
        i: "invoke e limit n1 ws1 (trace @ [n]) = Inr (trace', ws')"
        by (auto simp: invoke_Suc split: sum.splits)
      from Suc.prems(2) s have "reachable e (n1, ws1)" by (rule reachable.step)
      with i show ?thesis by (rule Suc.IH)
    qed
  qed
qed

subsection \<open>What the tool log holds\<close>

lemma set_dict_set: "set (dict_set d k v) \<subseteq> insert (k, v) (set d)"
  by (induction d) (auto split: if_splits)

lemma completed_entry_other: "n \<noteq> Executor \<Longrightarrow> completed_entry e n ws = []"
  by (simp add: completed_entry_def)

lemma executor_entries:
  "(\<forall>tc \<in> set (tool_calls (snd (executor_execute e ws))).
       tc \<in> set (tool_calls (snd ws))
       \<or> (tc_task_id tc, tc_result tc) \<in> set (completed_entry e Executor ws))
   \<and> set (execution_results (snd (executor_execute e ws)))
       \<subseteq> set (execution_results (snd ws)) \<union> set (completed_entry e Executor ws)"
proof -
  from executor_log_cases [of e "fst ws" "snd ws"]
  consider
    (same) "tool_calls (snd (executor_execute e ws)) = tool_calls (snd ws)"
      "execution_results (snd (executor_execute e ws)) = execution_results (snd ws)"
  | (added) res where "current_task_index (snd ws) < length (task_plan (snd ws))"
      "status (task_plan (snd (executor_execute e ws)) ! current_task_index (snd ws)) = COMPLETED"
      "id' (task_plan (snd (executor_execute e ws)) ! current_task_index (snd ws))
         = id' (task_plan (snd ws) ! current_task_index (snd ws))"
      "result (task_plan (snd (executor_execute e ws)) ! current_task_index (snd ws)) = Some res"
      "tool_calls (snd (executor_execute e ws)) = tool_calls (snd ws) @
         [\<lparr>tc_task_id = id' (task_plan (snd ws) ! current_task_index (snd ws)),
           tc_description = description (task_plan (snd ws) ! current_task_index (snd ws)),
           tc_result = res\<rparr>]"
      "execution_results (snd (executor_execute e ws))
         = dict_set (execution_results (snd ws))
             (id' (task_plan (snd ws) ! current_task_index (snd ws))) res"
    by auto
  then show ?thesis
  proof cases
    case same
    then show ?thesis by auto
  next
    case added
    from added(1-4) have c: "completed_entry e Executor ws
        = [(id' (task_plan (snd ws) ! current_task_index (snd ws)), res)]"
      by (simp add: completed_entry_def Let_def)
    from added(5) have "\<forall>tc \<in> set (tool_calls (snd (executor_execute e ws))).
        tc \<in> set (tool_calls (snd ws))
        \<or> (tc_task_id tc, tc_result tc)
             = (id' (task_plan (snd ws) ! current_task_index (snd ws)), res)"
      by auto
    moreover from added(6) have "set (execution_results (snd (executor_execute e ws)))
        \<subseteq> insert (id' (task_plan (snd ws) ! current_task_index (snd ws)), res)
             (set (execution_results (snd ws)))"
      by (simp add: set_dict_set)
    ultimately show ?thesis unfolding c by auto
  qed
qed

lemma graph_step_entries:
  assumes "graph_step e n ws = Inr (n', ws')"
  shows "(\<forall>tc \<in> set (tool_calls (snd ws')).
            tc \<in> set (tool_calls (snd ws))
            \<or> (tc_task_id tc, tc_result tc) \<in> set (completed_entry e n ws))
       \<and> set (execution_results (snd ws'))
            \<subseteq> set (execution_results (snd ws)) \<union> set (completed_entry e n ws)"
  using assms
proof (cases rule: graph_step_cases)
  case planner
  then show ?thesis using planner_keeps_log [of e ws]
    by (simp add: run_node_parts merge_fields)
next
  case executor
  then show ?thesis using executor_entries [of e ws]
    by (simp add: run_node_parts merge_fields)
next
  case validator
  then show ?thesis using validator_keeps_log [of e ws]
    by (simp add: run_node_parts merge_fields)
next
  case memory
  then show ?thesis using memory_keeps_log [of e ws]
    by (simp add: run_node_parts merge_fields)
next
  case finished
  then show ?thesis by simp
qed

lemma history_entries:
  assumes "history e c h"
  shows "(\<forall>tc \<in> set (tool_calls (snd (snd c))). (tc_task_id tc, tc_result tc) \<in> set h)
       \<and> set (execution_results (snd (snd c))) \<subseteq> set h"
  using assms
proof (induction rule: history.induct)
  case (start w input)
  show ?case by (simp add: create_initial_state_def)
next
  case (step n ws h n' ws')
  from graph_step_entries [OF step.hyps(2)] step.IH show ?case by auto
qed

lemma reachable_history:
  assumes "reachable e c"
  shows "\<exists>h. history e c h"
  using assms
proof (induction rule: reachable.induct)
  case (start w input)
  show ?case by (blast intro: history.start)
next
  case (step n ws n' ws')
  then show ?case by (blast intro: history.step)
qed

lemma executor_failed_keeps:
  assumes "current_task_index state < length (task_plan state)"
    and "status (task_plan (snd (executor_execute e (w, state))) ! current_task_index state) = FAILED"
  shows "tool_calls (snd (executor_execute e (w, state))) = tool_calls state
       \<and> execution_results (snd (executor_execute e (w, state))) = execution_results state
       \<and> completed_entry e Executor (w, state) = []"
proof -
  from executor_log_cases [of e w state] assms(2)
  have "tool_calls (snd (executor_execute e (w, state))) = tool_calls state
       \<and> execution_results (snd (executor_execute e (w, state))) = execution_results state"
    by auto
  moreover from assms have "completed_entry e Executor (w, state) = []"
    by (simp add: completed_entry_def Let_def split: option.splits)
  ultimately show ?thesis by simp
qed

text \<open>The two-task run of the examples, up to its first validation.\<close>

lemma second_task_next_reachable: "reachable fickle_env (Executor, second_task_next)"
proof -
  let ?c0 = "(world0, create_initial_state ''go'')"
  let ?c1 = "run_node (planner_execute fickle_env) ?c0"
  have f1: "route_from_planner (snd (planner_execute fickle_env ?c0)) \<noteq> ''end''" by code_simp
  have f2: "next_agent (snd (executor_execute fickle_env ?c1)) = ''executor''" by code_simp
  have r0: "reachable fickle_env (Planner, ?c0)" by (rule reachable.start)
  from f1 have "graph_step fickle_env Planner ?c0 = Inr (Executor, ?c1)"
    by (simp add: graph_step_Planner)
  with r0 have r1: "reachable fickle_env (Executor, ?c1)" by (rule reachable.step)
  from f2 have "graph_step fickle_env Executor ?c1 = Inr (Executor, second_task_next)"
    by (simp add: graph_step_Executor second_task_next_def)
  with r1 show ?thesis by (rule reachable.step)
qed

lemma first_validation_reachable: "reachable fickle_env (Validator, first_validation)"
proof -
  have f: "next_agent (snd (executor_execute fickle_env second_task_next)) = ''validator''"
    by code_simp
  then have "graph_step fickle_env Executor second_task_next = Inr (Validator, first_validation)"
    by (simp add: graph_step_Executor first_validation_def)
  with second_task_next_reachable show ?thesis by (rule reachable.step)
qed

text \<open>
  C10. In every configuration a run goes through, each entry of \<open>tool_calls\<close> and each
  stored result of \<open>execution_results\<close> carries the task id and the result of an
  execution step of that run that ended with its task Completed (\<open>h\<close> lists exactly
  those steps). An execution step that leaves the task at the cursor Failed, because
  its dependencies are not met or the model call raised, appends nothing to the log and
  stores no result: \<open>execute\<close> returns both as it received them and the step adds
  nothing to \<open>h\<close>. What the graph hands on after that step is the received log
  followed by a copy of itself, so with no entry that was not there before, and the
  stored results unchanged.
\<close>

theorem log_holds_completed_steps_only:
  assumes "reachable e (n, w, state)"
  shows "(\<exists>h. history e (n, w, state) h
            \<and> (\<forall>tc \<in> set (tool_calls state). (tc_task_id tc, tc_result tc) \<in> set h)
            \<and> set (execution_results state) \<subseteq> set h)
       \<and> (current_task_index state < length (task_plan state)
            \<and> status (task_plan (snd (executor_execute e (w, state))) ! current_task_index state)
                = FAILED
          \<longrightarrow> tool_calls (snd (executor_execute e (w, state))) = tool_calls state
            \<and> execution_results (snd (executor_execute e (w, state))) = execution_results state
            \<and> completed_entry e Executor (w, state) = []
            \<and> (\<forall>n' ws'. graph_step e Executor (w, state) = Inr (n', ws') \<longrightarrow>
                  tool_calls (snd ws') = tool_calls state @ tool_calls state
                  \<and> execution_results (snd ws') = execution_results state))"
proof (intro conjI impI)
  from reachable_history [OF assms] obtain h where h: "history e (n, w, state) h" ..
  from history_entries [OF h] h
  show "\<exists>h. history e (n, w, state) h
            \<and> (\<forall>tc \<in> set (tool_calls state). (tc_task_id tc, tc_result tc) \<in> set h)
            \<and> set (execution_results state) \<subseteq> set h"
    by auto
next
  assume a: "current_task_index state < length (task_plan state)
            \<and> status (task_plan (snd (executor_execute e (w, state))) ! current_task_index state)
                = FAILED"
  then have k: "tool_calls (snd (executor_execute e (w, state))) = tool_calls state
       \<and> execution_results (snd (executor_execute e (w, state))) = execution_results state
       \<and> completed_entry e Executor (w, state) = []"
    using executor_failed_keeps [of state e w] by simp
  from k show "tool_calls (snd (executor_execute e (w, state))) = tool_calls state" by simp
  from k show "execution_results (snd (executor_execute e (w, state))) = execution_results state"
    by simp
  from k show "completed_entry e Executor (w, state) = []" by simp
  show "\<forall>n' ws'. graph_step e Executor (w, state) = Inr (n', ws') \<longrightarrow>
                  tool_calls (snd ws') = tool_calls state @ tool_calls state
                  \<and> execution_results (snd ws') = execution_results state"
  proof (intro allI impI)
    fix n' ws'
    assume "graph_step e Executor (w, state) = Inr (n', ws')"
    then have "ws' = run_node (executor_execute e) (w, state)"
      by (simp add: graph_step_Executor)
    with k show "tool_calls (snd ws') = tool_calls state @ tool_calls state
                  \<and> execution_results (snd ws') = execution_results state"
      by (simp add: run_node_parts merge_fields)
  qed
qed

text \<open>
  In the two-task run the log holds the entry of the first task, twice, when the second
  task fails on its dependency; the failing step leaves log and results as they are.
\<close>

theorem log_holds_completed_steps_only_witness:
  "reachable fickle_env (Executor, second_task_next)
   \<and> current_task_index (snd second_task_next) < length (task_plan (snd second_task_next))
   \<and> status (task_plan (snd (executor_execute fickle_env second_task_next))
        ! current_task_index (snd second_task_next)) = FAILED
   \<and> map tc_task_id (tool_calls (snd second_task_next)) = [''task_1'', ''task_1'']
   \<and> tool_calls (snd (executor_execute fickle_env second_task_next))
       = tool_calls (snd second_task_next)
   \<and> execution_results (snd (executor_execute fickle_env second_task_next))
       = execution_results (snd second_task_next)
   \<and> completed_entry fickle_env Executor second_task_next = []"
proof -
  have h1: "current_task_index (snd second_task_next) < length (task_plan (snd second_task_next))"
    by code_simp
  have h2: "status (task_plan (snd (executor_execute fickle_env second_task_next))
        ! current_task_index (snd second_task_next)) = FAILED"
    by code_simp
  have h3: "map tc_task_id (tool_calls (snd second_task_next)) = [''task_1'', ''task_1'']"
    by code_simp
  have r: "reachable fickle_env (Executor, fst second_task_next, snd second_task_next)"
    using second_task_next_reachable by simp
  have p: "(fst second_task_next, snd second_task_next) = second_task_next" by simp
  from log_holds_completed_steps_only [OF r] h1 h2
  have "tool_calls (snd (executor_execute fickle_env second_task_next))
          = tool_calls (snd second_task_next)
      \<and> execution_results (snd (executor_execute fickle_env second_task_next))
          = execution_results (snd second_task_next)
      \<and> completed_entry fickle_env Executor second_task_next = []"
    unfolding p by blast
  with second_task_next_reachable h1 h2 h3 show ?thesis by blast
qed

subsection \<open>Runs up to the accumulated lists\<close>

text \<open>
  Each agent takes agreeing states to agreeing states and has the same effect on the
  world from both, and the graph's merge keeps a state in agreement. So the nodes a run
  goes through, and what it does to the world, can be read off the agents called one
  after the other on what they return.
\<close>

lemma agree_refl: "agree s s"
  by (simp add: agree_def)

lemma agree_merge: "agree s s' \<Longrightarrow> agree s (merge s')"
  by (simp add: agree_def merge_def)

lemma planner_agree:
  assumes "agree s s'"
  shows "fst (planner_execute e (w, s)) = fst (planner_execute e (w, s'))
       \<and> agree (snd (planner_execute e (w, s))) (snd (planner_execute e (w, s')))"
proof -
  from assms have g: "user_goal s = user_goal s'" by (simp add: agree_def)
  show ?thesis
  proof (cases "planner_llm e (tick w) (planning_prompt (user_goal s'))")
    case (Inl ex)
    with g assms show ?thesis by (simp add: planner_execute_def agree_def)
  next
    case (Inr ds)
    with g assms show ?thesis by (simp add: planner_execute_def agree_def)
  qed
qed

lemma executor_agree:
  assumes "agree s s'"
  shows "fst (executor_execute e (w, s)) = fst (executor_execute e (w, s'))
       \<and> agree (snd (executor_execute e (w, s))) (snd (executor_execute e (w, s')))"
proof -
  from assms have tp: "task_plan s = task_plan s'"
    and ci: "current_task_index s = current_task_index s'"
    and er: "execution_results s = execution_results s'"
    by (simp_all add: agree_def)
  have cd: "check_dependencies t s = check_dependencies t s'" for t
    by (simp only: check_dependencies_def tp)
  have ip: "execution_results (in_progress x i) = execution_results x" for x i
    by (simp add: in_progress_def)
  have "build_execution_prompt e t (in_progress s i) = build_execution_prompt e t (in_progress s' i)"
    for t i
    by (simp only: build_execution_prompt_def ip er)
  then have de: "decision e w s = decision e w s'"
    by (simp add: decision_def Let_def ci tp in_progress_def)
  show ?thesis
  proof (cases "current_task_index s < length (task_plan s)")
    case False
    with tp ci assms show ?thesis by (simp add: executor_execute_exhausted agree_def)
  next
    case inside: True
    then have inside': "current_task_index s' < length (task_plan s')" using tp ci by simp
    show ?thesis
    proof (cases "check_dependencies (task_plan s ! current_task_index s) s")
      case False
      then have unmet': "\<not> check_dependencies (task_plan s' ! current_task_index s') s'"
        using tp ci cd by simp
      from assms show ?thesis
        unfolding executor_execute_unmet [OF inside False] executor_execute_unmet [OF inside' unmet']
        by (simp add: agree_def dependencies_not_met_def Let_def)
    next
      case met: True
      then have met': "check_dependencies (task_plan s' ! current_task_index s') s'"
        using tp ci cd by simp
      show ?thesis
      proof (cases "decision e w s")
        case (Inl ex)
        then have d': "decision e w s' = Inl ex" using de by simp
        from assms show ?thesis
          unfolding executor_execute_raised [OF inside met Inl]
            executor_execute_raised [OF inside' met' d']
          by (simp add: agree_def execution_failed_def in_progress_def Let_def)
      next
        case (Inr r)
        then have d': "decision e w s' = Inr r" using de by simp
        from assms show ?thesis
          unfolding executor_execute_answered [OF inside met Inr]
            executor_execute_answered [OF inside' met' d']
          by (simp add: agree_def task_done_def in_progress_def Let_def)
      qed
    qed
  qed
qed

lemma validator_execute_full:
  assumes "\<not> is_simple_calculator_task state"
    and "\<exists>t \<in> set (task_plan state). status t = COMPLETED \<or> status t = FAILED"
  shows "validator_execute e (w, state)
       = (case build_validation_prompt state
                 (filter (\<lambda>t. status t = COMPLETED) (task_plan state))
                 (filter (\<lambda>t. status t = FAILED) (task_plan state)) of
            Inl ex \<Rightarrow> (w, validation_error state ex)
          | Inr validation_prompt \<Rightarrow>
              (case validator_llm e (tick w) validation_prompt of
                 Inl ex \<Rightarrow> (called w, validation_error state ex)
               | Inr v \<Rightarrow> (called w, decide e state v)))"
proof -
  have "\<not> (filter (\<lambda>t. status t = COMPLETED) (task_plan state) = []
          \<and> filter (\<lambda>t. status t = FAILED) (task_plan state) = [])"
    using assms(2) by (auto simp: filter_empty_conv)
  then show ?thesis
    using assms(1)
    by (auto simp: validator_execute_def Let_def split: sum.splits)
qed

lemma compile_final_output_agree:
  assumes "user_goal s = user_goal s'" and "task_plan s = task_plan s'"
    and "validation_result s = validation_result s'"
  shows "compile_final_output s = compile_final_output s'"
  by (simp only: compile_final_output_def assms)

lemma validator_agree:
  assumes "agree s s'"
  shows "fst (validator_execute e (w, s)) = fst (validator_execute e (w, s'))
       \<and> agree (snd (validator_execute e (w, s))) (snd (validator_execute e (w, s')))"
proof -
  from assms have tp: "task_plan s = task_plan s'" and ug: "user_goal s = user_goal s'"
    and tc: "set (tool_calls s) = set (tool_calls s')"
    and es: "(errors s = []) = (errors s' = [])"
    by (simp_all add: agree_def)
  have si: "is_simple_calculator_task s = is_simple_calculator_task s'"
    by (simp only: is_simple_calculator_task_def list_all_iff tp tc es)
  have pr: "build_validation_prompt s c f = build_validation_prompt s' c f" for c f
    by (simp only: build_validation_prompt_def ug)
  show ?thesis
  proof (cases "is_simple_calculator_task s")
    case True
    with si have "validator_execute e (w, s) = (w, auto_validated s)"
      "validator_execute e (w, s') = (w, auto_validated s')"
      by (simp_all add: validator_execute_fast)
    with assms show ?thesis
      by (auto simp: agree_def auto_validated_def Let_def intro!: compile_final_output_agree)
  next
    case ns: False
    show ?thesis
    proof (cases "\<exists>t \<in> set (task_plan s). status t = COMPLETED \<or> status t = FAILED")
      case False
      with ns si tp have
        "validator_execute e (w, s)
           = (w, s\<lparr>validation_passed := False, next_agent := ''end'', is_complete := True\<rparr>)"
        "validator_execute e (w, s')
           = (w, s'\<lparr>validation_passed := False, next_agent := ''end'', is_complete := True\<rparr>)"
        by (simp_all add: validator_execute_nothing)
      with assms show ?thesis by (simp add: agree_def)
    next
      case True
      with ns si tp have f: "validator_execute e (w, s)
           = (case build_validation_prompt s'
                 (filter (\<lambda>t. status t = COMPLETED) (task_plan s'))
                 (filter (\<lambda>t. status t = FAILED) (task_plan s')) of
            Inl ex \<Rightarrow> (w, validation_error s ex)
          | Inr validation_prompt \<Rightarrow>
              (case validator_llm e (tick w) validation_prompt of
                 Inl ex \<Rightarrow> (called w, validation_error s ex)
               | Inr v \<Rightarrow> (called w, decide e s v)))"
        "validator_execute e (w, s')
           = (case build_validation_prompt s'
                 (filter (\<lambda>t. status t = COMPLETED) (task_plan s'))
                 (filter (\<lambda>t. status t = FAILED) (task_plan s')) of
            Inl ex \<Rightarrow> (w, validation_error s' ex)
          | Inr validation_prompt \<Rightarrow>
              (case validator_llm e (tick w) validation_prompt of
                 Inl ex \<Rightarrow> (called w, validation_error s' ex)
               | Inr v \<Rightarrow> (called w, decide e s' v)))"
        using validator_execute_full [of s e w] validator_execute_full [of s' e w] pr
        by simp_all
      have ve: "agree (validation_error s ex) (validation_error s' ex)" for ex
        using assms by (simp add: agree_def validation_error_def)
      have dc: "agree (decide e s v) (decide e s' v)" for v
        using assms
        by (auto simp: agree_def decide_def Let_def intro!: compile_final_output_agree)
      show ?thesis unfolding f using ve dc
        by (simp split: sum.splits)
    qed
  qed
qed

lemma memory_agree:
  assumes "agree s s'"
  shows "fst (memory_execute e (w, s)) = fst (memory_execute e (w, s'))
       \<and> agree (snd (memory_execute e (w, s))) (snd (memory_execute e (w, s')))"
  using assms by (simp add: agree_def memory_execute_def store_current_context_def Let_def)

lemma invoke_step:
  assumes "n \<noteq> END" and "1 < limit"
  shows "invoke e limit n ws tr =
     (case graph_step e n ws of
        Inl ex \<Rightarrow> Inl ex
      | Inr (n', ws') \<Rightarrow> invoke e (limit - 1) n' ws' (tr @ [n]))"
proof -
  from assms(2) obtain k where k: "limit = Suc (Suc k)"
    by (cases limit; cases "limit - 1") auto
  show ?thesis unfolding k using assms(1) by (simp add: invoke_Suc split: sum.splits)
qed

lemma run_node_agree:
  assumes "fst c = fst ws \<and> agree (snd c) (snd ws)"
  shows "fst (planner_execute e c) = fst (run_node (planner_execute e) ws)
       \<and> agree (snd (planner_execute e c)) (snd (run_node (planner_execute e) ws))"
    and "fst (executor_execute e c) = fst (run_node (executor_execute e) ws)
       \<and> agree (snd (executor_execute e c)) (snd (run_node (executor_execute e) ws))"
    and "fst (validator_execute e c) = fst (run_node (validator_execute e) ws)
       \<and> agree (snd (validator_execute e c)) (snd (run_node (validator_execute e) ws))"
    and "fst (memory_execute e c) = fst (run_node (memory_execute e) ws)
       \<and> agree (snd (memory_execute e c)) (snd (run_node (memory_execute e) ws))"
proof -
  obtain w s where c: "c = (w, s)" by (cases c)
  with assms obtain s' where ws: "ws = (w, s')" by (cases ws) simp
  from assms c ws have a: "agree s s'" by simp
  from planner_agree [OF a, of e w]
  show "fst (planner_execute e c) = fst (run_node (planner_execute e) ws)
       \<and> agree (snd (planner_execute e c)) (snd (run_node (planner_execute e) ws))"
    unfolding c ws by (simp add: run_node_parts agree_merge)
  from executor_agree [OF a, of e w]
  show "fst (executor_execute e c) = fst (run_node (executor_execute e) ws)
       \<and> agree (snd (executor_execute e c)) (snd (run_node (executor_execute e) ws))"
    unfolding c ws by (simp add: run_node_parts agree_merge)
  from validator_agree [OF a, of e w]
  show "fst (validator_execute e c) = fst (run_node (validator_execute e) ws)
       \<and> agree (snd (validator_execute e c)) (snd (run_node (validator_execute e) ws))"
    unfolding c ws by (simp add: run_node_parts agree_merge)
  from memory_agree [OF a, of e w]
  show "fst (memory_execute e c) = fst (run_node (memory_execute e) ws)
       \<and> agree (snd (memory_execute e c)) (snd (run_node (memory_execute e) ws))"
    unfolding c ws by (simp add: run_node_parts agree_merge)
qed

lemma planner_step:
  assumes "fst c = fst ws \<and> agree (snd c) (snd ws)"
    and "route_from_planner (snd (planner_execute e c)) \<noteq> ''end''" and "1 < limit"
  shows "invoke e limit Planner ws tr
         = invoke e (limit - 1) Executor (run_node (planner_execute e) ws) (tr @ [Planner])"
proof -
  from run_node_agree(1) [OF assms(1), of e]
  have "route_from_planner (snd (planner_execute e c))
      = route_from_planner (snd (planner_execute e ws))"
    by (simp add: route_from_planner_def agree_def run_node_parts merge_fields)
  with assms(2) show ?thesis
    by (simp add: invoke_step [OF _ assms(3)] graph_step_Planner)
qed

lemma executor_step:
  assumes "fst c = fst ws \<and> agree (snd c) (snd ws)"
    and "next_agent (snd (executor_execute e c)) = r" and "1 < limit"
  shows "invoke e limit Executor ws tr
         = invoke e (limit - 1)
             (if r = ''executor'' then Executor else if r = ''validator'' then Validator else END)
             (run_node (executor_execute e) ws) (tr @ [Executor])"
proof -
  from run_node_agree(2) [OF assms(1), of e]
  have "next_agent (snd (executor_execute e c))
      = next_agent (snd (executor_execute e ws))"
    by (simp add: agree_def run_node_parts merge_fields)
  with assms(2) show ?thesis
    by (simp add: invoke_step [OF _ assms(3)] graph_step_Executor)
qed

lemma validator_step:
  assumes "fst c = fst ws \<and> agree (snd c) (snd ws)"
    and "is_complete (snd (validator_execute e c)) = done"
    and "validation_passed (snd (validator_execute e c)) = passed" and "1 < limit"
  shows "invoke e limit Validator ws tr
         = invoke e (limit - 1)
             (if done then (if passed then Memory else END) else Executor)
             (run_node (validator_execute e) ws) (tr @ [Validator])"
proof -
  from run_node_agree(3) [OF assms(1), of e]
  have "is_complete (snd (validator_execute e c)) = is_complete (snd (validator_execute e ws))"
    "validation_passed (snd (validator_execute e c))
       = validation_passed (snd (validator_execute e ws))"
    by (simp_all add: agree_def run_node_parts merge_fields)
  with assms(2,3) show ?thesis
    by (simp add: invoke_step [OF _ assms(4)] graph_step_Validator)
qed

lemma memory_step:
  assumes "1 < limit"
  shows "invoke e limit Memory ws tr = Inr (tr @ [Memory], run_node (memory_execute e) ws)"
  by (simp add: invoke_step [OF _ assms] graph_step_Memory)

text \<open>
  The run of the two-task plan with a calculator call for every task and a rejecting
  scorer: three passes over the plan, each ended by a validation.
\<close>

lemma rejecting_run:
  "\<exists>w s. run_workflow (example_env two_tasks add_call rejecting) 25 world0 ''go''
            = Inr ([Planner, Executor, Executor, Validator, Executor, Executor, Validator,
                    Executor, Executor, Validator], w, s)
         \<and> retry_count s = 2 \<and> \<not> validation_passed s
         \<and> stored w = [] \<and> saves w = 0
         \<and> invocations w = [(''calculator'', ''5 + 3''), (''calculator'', ''5 + 3''),
                             (''calculator'', ''5 + 3'')]"
proof -
  let ?e = "example_env two_tasks add_call rejecting"
  let ?c0 = "(world0, create_initial_state ''go'')"
  let ?c1 = "planner_execute ?e ?c0"
  let ?c2 = "executor_execute ?e ?c1"
  let ?c3 = "executor_execute ?e ?c2"
  let ?c4 = "validator_execute ?e ?c3"
  let ?c5 = "executor_execute ?e ?c4"
  let ?c6 = "executor_execute ?e ?c5"
  let ?c7 = "validator_execute ?e ?c6"
  let ?c8 = "executor_execute ?e ?c7"
  let ?c9 = "executor_execute ?e ?c8"
  let ?c10 = "validator_execute ?e ?c9"
  let ?m1 = "run_node (planner_execute ?e) ?c0"
  let ?m2 = "run_node (executor_execute ?e) ?m1"
  let ?m3 = "run_node (executor_execute ?e) ?m2"
  let ?m4 = "run_node (validator_execute ?e) ?m3"
  let ?m5 = "run_node (executor_execute ?e) ?m4"
  let ?m6 = "run_node (executor_execute ?e) ?m5"
  let ?m7 = "run_node (validator_execute ?e) ?m6"
  let ?m8 = "run_node (executor_execute ?e) ?m7"
  let ?m9 = "run_node (executor_execute ?e) ?m8"
  let ?m10 = "run_node (validator_execute ?e) ?m9"
  have r1: "route_from_planner (snd ?c1) \<noteq> ''end''" by code_simp
  have r2: "next_agent (snd ?c2) = ''executor''" by code_simp
  have r3: "next_agent (snd ?c3) = ''validator''" by code_simp
  have r4: "is_complete (snd ?c4) = False" "validation_passed (snd ?c4) = False" by code_simp+
  have r5: "next_agent (snd ?c5) = ''executor''" by code_simp
  have r6: "next_agent (snd ?c6) = ''validator''" by code_simp
  have r7: "is_complete (snd ?c7) = False" "validation_passed (snd ?c7) = False" by code_simp+
  have r8: "next_agent (snd ?c8) = ''executor''" by code_simp
  have r9: "next_agent (snd ?c9) = ''validator''" by code_simp
  have r10: "is_complete (snd ?c10) = True" "validation_passed (snd ?c10) = False" by code_simp+
  have f: "retry_count (snd ?c10) = 2" "stored (fst ?c10) = []" "saves (fst ?c10) = 0"
    "invocations (fst ?c10) = [(''calculator'', ''5 + 3''), (''calculator'', ''5 + 3''),
                             (''calculator'', ''5 + 3'')]"
    by code_simp+
  have a0: "fst ?c0 = fst ?c0 \<and> agree (snd ?c0) (snd ?c0)" by (simp add: agree_refl)
  note a1 = run_node_agree(1) [OF a0, of ?e]
  note a2 = run_node_agree(2) [OF a1, of ?e]
  note a3 = run_node_agree(2) [OF a2, of ?e]
  note a4 = run_node_agree(3) [OF a3, of ?e]
  note a5 = run_node_agree(2) [OF a4, of ?e]
  note a6 = run_node_agree(2) [OF a5, of ?e]
  note a7 = run_node_agree(3) [OF a6, of ?e]
  note a8 = run_node_agree(2) [OF a7, of ?e]
  note a9 = run_node_agree(2) [OF a8, of ?e]
  note a10 = run_node_agree(3) [OF a9, of ?e]
  have "run_workflow ?e 25 world0 ''go'' = invoke ?e 25 Planner ?c0 []"
    by (simp add: run_workflow_def)
  also have "\<dots> = invoke ?e 24 Executor ?m1 [Planner]"
    using planner_step [OF a0 r1, of 25 "[]"] by simp
  also have "\<dots> = invoke ?e 23 Executor ?m2 [Planner, Executor]"
    using executor_step [OF a1 r2, of 24 "[Planner]"] by simp
  also have "\<dots> = invoke ?e 22 Validator ?m3 [Planner, Executor, Executor]"
    using executor_step [OF a2 r3, of 23 "[Planner, Executor]"] by simp
  also have "\<dots> = invoke ?e 21 Executor ?m4 [Planner, Executor, Executor, Validator]"
    using validator_step [OF a3 r4, of 22 "[Planner, Executor, Executor]"] by simp
  also have "\<dots> = invoke ?e 20 Executor ?m5 [Planner, Executor, Executor, Validator, Executor]"
    using executor_step [OF a4 r5, of 21 "[Planner, Executor, Executor, Validator]"] by simp
  also have "\<dots> = invoke ?e 19 Validator ?m6
      [Planner, Executor, Executor, Validator, Executor, Executor]"
    using executor_step [OF a5 r6, of 20 "[Planner, Executor, Executor, Validator, Executor]"]
    by simp
  also have "\<dots> = invoke ?e 18 Executor ?m7
      [Planner, Executor, Executor, Validator, Executor, Executor, Validator]"
    using validator_step [OF a6 r7, of 19
        "[Planner, Executor, Executor, Validator, Executor, Executor]"]
    by simp
  also have "\<dots> = invoke ?e 17 Executor ?m8
      [Planner, Executor, Executor, Validator, Executor, Executor, Validator, Executor]"
    using executor_step [OF a7 r8, of 18
        "[Planner, Executor, Executor, Validator, Executor, Executor, Validator]"]
    by simp
  also have "\<dots> = invoke ?e 16 Validator ?m9
      [Planner, Executor, Executor, Validator, Executor, Executor, Validator,
       Executor, Executor]"
    using executor_step [OF a8 r9, of 17
        "[Planner, Executor, Executor, Validator, Executor, Executor, Validator, Executor]"]
    by simp
  also have "\<dots> = invoke ?e 15 END ?m10
      [Planner, Executor, Executor, Validator, Executor, Executor, Validator,
       Executor, Executor, Validator]"
    using validator_step [OF a9 r10, of 16
        "[Planner, Executor, Executor, Validator, Executor, Executor, Validator,
          Executor, Executor]"]
    by simp
  finally have run: "run_workflow ?e 25 world0 ''go''
      = Inr ([Planner, Executor, Executor, Validator, Executor, Executor, Validator,
              Executor, Executor, Validator], fst ?m10, snd ?m10)"
    by simp
  from a10 f r10 have "retry_count (snd ?m10) = 2 \<and> \<not> validation_passed (snd ?m10)
      \<and> stored (fst ?m10) = [] \<and> saves (fst ?m10) = 0
      \<and> invocations (fst ?m10) = [(''calculator'', ''5 + 3''), (''calculator'', ''5 + 3''),
                             (''calculator'', ''5 + 3'')]"
    unfolding agree_def by metis
  with run show ?thesis by blast
qed

section \<open>Fast path of the quality gate\<close>

lemma scoring_answer:
  assumes "\<not> isl (build_validation_prompt state
             (filter (\<lambda>t. status t = COMPLETED) (task_plan state))
             (filter (\<lambda>t. status t = FAILED) (task_plan state)))"
    and "\<And>t' prompt. validator_llm e t' prompt = Inr v"
  shows "scoring e w state = Inr v"
  using assms
  by (cases "build_validation_prompt state
             (filter (\<lambda>t. status t = COMPLETED) (task_plan state))
             (filter (\<lambda>t. status t = FAILED) (task_plan state))")
     (simp_all add: scoring_def)

text \<open>The one-task run in which the decision step answers by itself reaches the validator.\<close>

lemma answered_reachable:
  "reachable (example_env one_task own_answer rejecting) (Validator, answered)"
proof -
  let ?e = "example_env one_task own_answer rejecting"
  let ?c0 = "(world0, create_initial_state ''go'')"
  let ?c1 = "run_node (planner_execute ?e) ?c0"
  have f1: "route_from_planner (snd (planner_execute ?e ?c0)) \<noteq> ''end''" by code_simp
  have f2: "next_agent (snd (executor_execute ?e ?c1)) = ''validator''" by code_simp
  have r0: "reachable ?e (Planner, ?c0)" by (rule reachable.start)
  from f1 have "graph_step ?e Planner ?c0 = Inr (Executor, ?c1)"
    by (simp add: graph_step_Planner)
  with r0 have r1: "reachable ?e (Executor, ?c1)" by (rule reachable.step)
  from f2 have "graph_step ?e Executor ?c1 = Inr (Validator, answered)"
    by (simp add: graph_step_Executor answered_def)
  with r1 show ?thesis by (rule reachable.step)
qed

text \<open>The whole run: planner, executor, validator, memory agent.\<close>

lemma answered_run:
  "\<exists>w s. run_workflow (example_env one_task own_answer rejecting) 25 world0 ''go''
            = Inr ([Planner, Executor, Validator, Memory], w, s)
         \<and> invocations w = [] \<and> validation_passed s
         \<and> validation_result s
             = Some \<lparr>valid = True, score = 1,
                 feedback = ''Auto-validated: Simple calculator task completed successfully''\<rparr>"
proof -
  let ?e = "example_env one_task own_answer rejecting"
  let ?c0 = "(world0, create_initial_state ''go'')"
  let ?c1 = "planner_execute ?e ?c0"
  let ?c2 = "executor_execute ?e ?c1"
  let ?c3 = "validator_execute ?e ?c2"
  let ?c4 = "memory_execute ?e ?c3"
  let ?m1 = "run_node (planner_execute ?e) ?c0"
  let ?m2 = "run_node (executor_execute ?e) ?m1"
  let ?m3 = "run_node (validator_execute ?e) ?m2"
  let ?m4 = "run_node (memory_execute ?e) ?m3"
  have r1: "route_from_planner (snd ?c1) \<noteq> ''end''" by code_simp
  have r2: "next_agent (snd ?c2) = ''validator''" by code_simp
  have r3: "is_complete (snd ?c3) = True" "validation_passed (snd ?c3) = True" by code_simp+
  have f: "invocations (fst ?c4) = []" "validation_passed (snd ?c4)"
    "validation_result (snd ?c4)
       = Some \<lparr>valid = True, score = 1,
           feedback = ''Auto-validated: Simple calculator task completed successfully''\<rparr>"
    by code_simp+
  have a0: "fst ?c0 = fst ?c0 \<and> agree (snd ?c0) (snd ?c0)" by (simp add: agree_refl)
  note a1 = run_node_agree(1) [OF a0, of ?e]
  note a2 = run_node_agree(2) [OF a1, of ?e]
  note a3 = run_node_agree(3) [OF a2, of ?e]
  note a4 = run_node_agree(4) [OF a3, of ?e]
  have "run_workflow ?e 25 world0 ''go'' = invoke ?e 25 Planner ?c0 []"
    by (simp add: run_workflow_def)
  also have "\<dots> = invoke ?e 24 Executor ?m1 [Planner]"
    using planner_step [OF a0 r1, of 25 "[]"] by simp
  also have "\<dots> = invoke ?e 23 Validator ?m2 [Planner, Executor]"
    using executor_step [OF a1 r2, of 24 "[Planner]"] by simp
  also have "\<dots> = invoke ?e 22 Memory ?m3 [Planner, Executor, Validator]"
    using validator_step [OF a2 r3, of 23 "[Planner, Executor]"] by simp
  also have "\<dots> = Inr ([Planner, Executor, Validator, Memory], fst ?m4, snd ?m4)"
    using memory_step [of 22 ?e ?m3 "[Planner, Executor, Validator]"] by simp
  finally have run: "run_workflow ?e 25 world0 ''go''
      = Inr ([Planner, Executor, Validator, Memory], fst ?m4, snd ?m4)" .
  from a4 f have "invocations (fst ?m4) = [] \<and> validation_passed (snd ?m4)
      \<and> validation_result (snd ?m4)
          = Some \<lparr>valid = True, score = 1,
              feedback = ''Auto-validated: Simple calculator task completed successfully''\<rparr>"
    unfolding agree_def by metis
  with run show ?thesis by blast
qed

text \<open>
  C5. \<open>_is_simple_calculator_task\<close> is documented as \<open>True if all tasks use only
  calculator tool\<close>, and the claim lets the fast path trigger only when every entry of
  the tool log refers to the calculator. The code tests whether the result text of each
  entry contains the word \<open>calculator\<close>. In the run of a one-task plan whose decision
  step answers by itself, in a text that mentions the calculator, no tool is ever
  invoked: the response has no tool call in it and the world records no invocation.
  The task is Completed with that text as its result, the tool log entered at the
  validator holds it, there is no error, and the validator takes the fast path: it
  returns the auto-validated state without calling the scorer (which would have
  rejected), and the run goes on through the memory agent and ends validated.
\<close>

theorem fast_path_without_tool:
  "parse_tool_call own_answer = None
   \<and> \<not> isl (run_workflow (example_env one_task own_answer rejecting) 25 world0 ''go'')
   \<and> fst (projr (run_workflow (example_env one_task own_answer rejecting) 25 world0 ''go''))
       = [Planner, Executor, Validator, Memory]
   \<and> invocations (fst (snd (projr
        (run_workflow (example_env one_task own_answer rejecting) 25 world0 ''go'')))) = []
   \<and> validation_passed (snd (snd (projr
        (run_workflow (example_env one_task own_answer rejecting) 25 world0 ''go''))))
   \<and> map_option feedback (validation_result (snd (snd (projr
        (run_workflow (example_env one_task own_answer rejecting) 25 world0 ''go'')))))
       = Some ''Auto-validated: Simple calculator task completed successfully''
   \<and> map_option score (validation_result (snd (snd (projr
        (run_workflow (example_env one_task own_answer rejecting) 25 world0 ''go'')))))
       = Some 1
   \<and> map status (task_plan (snd answered)) = [COMPLETED]
   \<and> map tc_result (tool_calls (snd answered)) = [own_answer, own_answer]
   \<and> errors (snd answered) = []
   \<and> is_simple_calculator_task (snd answered)
   \<and> validator_execute (example_env one_task own_answer rejecting) answered
       = (fst answered, auto_validated (snd answered))
   \<and> scoring (example_env one_task own_answer rejecting) (fst answered) (snd answered)
       = Inr rejecting"
proof -
  let ?e = "example_env one_task own_answer rejecting"
  have a: "parse_tool_call own_answer = None" by code_simp
  from answered_run obtain w s where
    "run_workflow ?e 25 world0 ''go'' = Inr ([Planner, Executor, Validator, Memory], w, s)"
    and "invocations w = []" and "validation_passed s"
    and "validation_result s
           = Some \<lparr>valid = True, score = 1,
               feedback = ''Auto-validated: Simple calculator task completed successfully''\<rparr>"
    by blast
  then have b: "\<not> isl (run_workflow ?e 25 world0 ''go'')"
    and c: "fst (projr (run_workflow ?e 25 world0 ''go''))
          = [Planner, Executor, Validator, Memory]"
    and d: "invocations (fst (snd (projr (run_workflow ?e 25 world0 ''go'')))) = []"
    and f: "validation_passed (snd (snd (projr (run_workflow ?e 25 world0 ''go''))))"
    and g: "map_option feedback (validation_result (snd (snd (projr
        (run_workflow ?e 25 world0 ''go'')))))
       = Some ''Auto-validated: Simple calculator task completed successfully''"
    and h: "map_option score (validation_result (snd (snd (projr
        (run_workflow ?e 25 world0 ''go''))))) = Some 1"
    by simp_all
  have i: "map status (task_plan (snd answered)) = [COMPLETED]" by code_simp
  have j: "map tc_result (tool_calls (snd answered)) = [own_answer, own_answer]" by code_simp
  have k: "errors (snd answered) = []" by code_simp
  have l: "is_simple_calculator_task (snd answered)" by code_simp
  from validator_execute_fast [OF l, of ?e "fst answered"]
  have m: "validator_execute ?e answered = (fst answered, auto_validated (snd answered))"
    by simp
  have "\<not> isl (build_validation_prompt (snd answered)
             (filter (\<lambda>t. status t = COMPLETED) (task_plan (snd answered)))
             (filter (\<lambda>t. status t = FAILED) (task_plan (snd answered))))"
    by code_simp
  moreover have "validator_llm ?e t' prompt = Inr rejecting" for t' prompt
    by (simp add: example_env_def)
  ultimately have n: "scoring ?e (fst answered) (snd answered) = Inr rejecting"
    by (rule scoring_answer)
  from a b c d f g h i j k l m n show ?thesis by blast
qed

section \<open>Routing after validation\<close>

lemma validator_passed_complete:
  "validation_passed (snd (validator_execute e ws)) \<Longrightarrow> is_complete (snd (validator_execute e ws))"
  by (simp add: validator_execute_def auto_validated_def validation_error_def decide_def Let_def
           split: sum.splits if_splits)

lemma validator_keeps_store:
  "stored (fst (validator_execute e ws)) = stored (fst ws)
   \<and> saves (fst (validator_execute e ws)) = saves (fst ws)"
  by (simp add: validator_execute_def called_def Let_def split: sum.splits)

lemma decide_exhausted:
  assumes "\<not> (valid v \<and> threshold e \<le> score v)" and "\<not> retry_count state < 2"
  shows "\<not> validation_passed (decide e state v) \<and> is_complete (decide e state v)
       \<and> errors (decide e state v) = errors state @ [''Validation failed after max retries'']"
  using assms by (simp add: decide_def Let_def)

text \<open>
  C2. When the validator ends with a passed verdict, the workflow goes from the validator
  to the memory agent and from there to the end. When the scorer's verdict fails and
  the retry count is no longer below 2, the validator marks the run complete and not
  passed, and the workflow goes from the validator straight to the end: the run stops
  there, the memory agent is not run and nothing is added to or saved in the vector
  store. In both cases the state handed on is the one the validator returned, merged by
  the graph.
\<close>

theorem validator_persists_only_when_passed:
  "(validation_passed (snd (validator_execute e (w, state))) \<longrightarrow>
      graph_step e Validator (w, state) = Inr (Memory, run_node (validator_execute e) (w, state))
      \<and> graph_step e Memory (run_node (validator_execute e) (w, state))
          = Inr (END, run_node (memory_execute e) (run_node (validator_execute e) (w, state))))
   \<and> (\<not> is_simple_calculator_task state
      \<and> (\<exists>t \<in> set (task_plan state). status t = COMPLETED \<or> status t = FAILED)
      \<and> scoring e w state = Inr v
      \<and> \<not> (valid v \<and> threshold e \<le> score v)
      \<and> \<not> retry_count state < 2 \<longrightarrow>
      graph_step e Validator (w, state) = Inr (END, run_node (validator_execute e) (w, state))
      \<and> invoke e (Suc (Suc limit)) Validator (w, state) trace
          = Inr (trace @ [Validator], run_node (validator_execute e) (w, state))
      \<and> \<not> validation_passed (snd (validator_execute e (w, state)))
      \<and> is_complete (snd (validator_execute e (w, state)))
      \<and> stored (fst (validator_execute e (w, state))) = stored w
      \<and> saves (fst (validator_execute e (w, state))) = saves w
      \<and> \<not> validation_passed (snd (run_node (validator_execute e) (w, state)))
      \<and> is_complete (snd (run_node (validator_execute e) (w, state)))
      \<and> stored (fst (run_node (validator_execute e) (w, state))) = stored w
      \<and> saves (fst (run_node (validator_execute e) (w, state))) = saves w)"
proof (intro conjI impI)
  assume p: "validation_passed (snd (validator_execute e (w, state)))"
  with validator_passed_complete [OF p]
  show "graph_step e Validator (w, state) = Inr (Memory, run_node (validator_execute e) (w, state))"
    by (simp add: graph_step_Validator)
  show "graph_step e Memory (run_node (validator_execute e) (w, state))
          = Inr (END, run_node (memory_execute e) (run_node (validator_execute e) (w, state)))"
    by (simp add: graph_step_Memory)
next
  assume a: "\<not> is_simple_calculator_task state
      \<and> (\<exists>t \<in> set (task_plan state). status t = COMPLETED \<or> status t = FAILED)
      \<and> scoring e w state = Inr v
      \<and> \<not> (valid v \<and> threshold e \<le> score v)
      \<and> \<not> retry_count state < 2"
  then have v: "validator_execute e (w, state) = (called w, decide e state v)"
    by (simp add: validator_execute_scored)
  from a have d: "\<not> validation_passed (decide e state v) \<and> is_complete (decide e state v)"
    using decide_exhausted [of v e state] by simp
  from v d show g: "graph_step e Validator (w, state)
      = Inr (END, run_node (validator_execute e) (w, state))"
    by (simp add: graph_step_Validator)
  from g show "invoke e (Suc (Suc limit)) Validator (w, state) trace
          = Inr (trace @ [Validator], run_node (validator_execute e) (w, state))"
    by simp
  from v d show "\<not> validation_passed (snd (validator_execute e (w, state)))"
    and "is_complete (snd (validator_execute e (w, state)))" by simp_all
  from validator_keeps_store [of e "(w, state)"]
  show "stored (fst (validator_execute e (w, state))) = stored w"
    and "saves (fst (validator_execute e (w, state))) = saves w" by simp_all
  from v d show "\<not> validation_passed (snd (run_node (validator_execute e) (w, state)))"
    and "is_complete (snd (run_node (validator_execute e) (w, state)))"
    by (simp_all add: run_node_parts merge_fields)
  from validator_keeps_store [of e "(w, state)"]
  show "stored (fst (run_node (validator_execute e) (w, state))) = stored w"
    and "saves (fst (run_node (validator_execute e) (w, state))) = saves w"
    by (simp_all add: run_node_parts)
qed

text \<open>
  The one-task run is auto-validated and goes on to the memory agent; the two-task run
  with its retry count at 2 and a rejecting scorer ends at the validator.
\<close>

theorem validator_persists_only_when_passed_witness:
  "validation_passed (snd (validator_execute (example_env one_task add_call rejecting) calculated))
   \<and> graph_step (example_env one_task add_call rejecting) Validator calculated
       = Inr (Memory, run_node (validator_execute (example_env one_task add_call rejecting))
                        calculated)
   \<and> \<not> is_simple_calculator_task exhausted_state
   \<and> scoring fickle_env (fst first_pass) exhausted_state = Inr rejecting
   \<and> \<not> (valid rejecting \<and> threshold fickle_env \<le> score rejecting)
   \<and> \<not> retry_count exhausted_state < 2
   \<and> graph_step fickle_env Validator (fst first_pass, exhausted_state)
       = Inr (END, run_node (validator_execute fickle_env) (fst first_pass, exhausted_state))
   \<and> \<not> validation_passed (snd (validator_execute fickle_env (fst first_pass, exhausted_state)))"
proof -
  let ?e = "example_env one_task add_call rejecting"
  have s: "is_simple_calculator_task (snd calculated)" by code_simp
  then have "validator_execute ?e (fst calculated, snd calculated)
      = (fst calculated, auto_validated (snd calculated))"
    by (rule validator_execute_fast)
  then have p: "validation_passed (snd (validator_execute ?e (fst calculated, snd calculated)))"
    by (simp add: auto_validated_def Let_def)
  from validator_persists_only_when_passed [of ?e "fst calculated" "snd calculated"] p
  have a: "graph_step ?e Validator (fst calculated, snd calculated)
      = Inr (Memory, run_node (validator_execute ?e) (fst calculated, snd calculated))"
    by blast
  have n: "\<not> is_simple_calculator_task exhausted_state" by code_simp
  have t: "\<exists>t \<in> set (task_plan exhausted_state). status t = COMPLETED \<or> status t = FAILED"
    by code_simp
  have b: "\<not> isl (build_validation_prompt exhausted_state
             (filter (\<lambda>t. status t = COMPLETED) (task_plan exhausted_state))
             (filter (\<lambda>t. status t = FAILED) (task_plan exhausted_state)))"
    by code_simp
  have v: "validator_llm fickle_env t' prompt = Inr rejecting" for t' prompt
    by (simp add: fickle_env_def example_env_def)
  from b v have sc: "scoring fickle_env (fst first_pass) exhausted_state = Inr rejecting"
    by (rule scoring_answer)
  have f: "\<not> (valid rejecting \<and> threshold fickle_env \<le> score rejecting)"
    by (simp add: rejecting_def)
  have c: "\<not> retry_count exhausted_state < 2" by (simp add: exhausted_state_def)
  from validator_persists_only_when_passed [of fickle_env "fst first_pass" exhausted_state
      rejecting 0 "[]"] n t sc f c
  have d: "graph_step fickle_env Validator (fst first_pass, exhausted_state)
       = Inr (END, run_node (validator_execute fickle_env) (fst first_pass, exhausted_state))
     \<and> \<not> validation_passed (snd (validator_execute fickle_env (fst first_pass, exhausted_state)))"
    by blast
  from p a n sc f c d show ?thesis by simp
qed

text \<open>
  The claim as worded sends a run that has used up its retries through the memory
  agent. The two-task run with a rejecting scorer ends after its third validation, with
  the retry count at 2: the memory agent is never run and the vector store is untouched.
\<close>

theorem exhausted_run_skips_memory_counterexample:
  "fst (projr (run_workflow (example_env two_tasks add_call rejecting) 25 world0 ''go''))
     = [Planner, Executor, Executor, Validator, Executor, Executor, Validator,
        Executor, Executor, Validator]
   \<and> \<not> isl (run_workflow (example_env two_tasks add_call rejecting) 25 world0 ''go'')
   \<and> retry_count (snd (snd (projr
        (run_workflow (example_env two_tasks add_call rejecting) 25 world0 ''go'')))) = 2
   \<and> \<not> validation_passed (snd (snd (projr
        (run_workflow (example_env two_tasks add_call rejecting) 25 world0 ''go''))))
   \<and> stored (fst (snd (projr
        (run_workflow (example_env two_tasks add_call rejecting) 25 world0 ''go'')))) = []
   \<and> saves (fst (snd (projr
        (run_workflow (example_env two_tasks add_call rejecting) 25 world0 ''go'')))) = 0"
proof -
  from rejecting_run obtain w s where
    "run_workflow (example_env two_tasks add_call rejecting) 25 world0 ''go''
       = Inr ([Planner, Executor, Executor, Validator, Executor, Executor, Validator,
               Executor, Executor, Validator], w, s)"
    and "retry_count s = 2" and "\<not> validation_passed s" and "stored w = []" and "saves w = 0"
    by blast
  then show ?thesis by simp
qed

section \<open>Empty plans\<close>

text \<open>
  C4. When the plan producer returns no task, the run ends right after the planner:
  the planner is the only node that runs, so the executor never does. The final state
  holds the empty plan and is not marked complete, and the result of \<open>run\<close> reports
  success, no output, validation not passed, one iteration, and no error or warning.
  This holds for every recursion limit that lets a run of one node end, that is from 2
  on.
\<close>

theorem empty_plan_ends_run:
  assumes "planner_llm e (tick w) (planning_prompt input) = Inr []"
  shows "run_workflow e (Suc (Suc limit)) w input
           = Inr ([Planner], called w,
                  (create_initial_state input)\<lparr>task_plan := [], current_task_index := 0,
                     next_agent := ''executor'', iteration_count := 1\<rparr>)
       \<and> run e (Suc (Suc limit)) w input
           = \<lparr>out_success = True, out_output = None, out_validation_passed = False,
              out_iterations = 1, out_errors = [], out_warnings = []\<rparr>
       \<and> \<not> is_complete ((create_initial_state input)\<lparr>task_plan := [], current_task_index := 0,
                     next_agent := ''executor'', iteration_count := 1\<rparr>)"
proof -
  have p: "planner_execute e (w, create_initial_state input)
      = (called w, (create_initial_state input)\<lparr>task_plan := [], current_task_index := 0,
                     next_agent := ''executor'', iteration_count := 1\<rparr>)"
    using assms by (simp add: planner_execute_def create_initial_state_def)
  have m: "run_node (planner_execute e) (w, create_initial_state input)
      = (called w, (create_initial_state input)\<lparr>task_plan := [], current_task_index := 0,
                     next_agent := ''executor'', iteration_count := 1\<rparr>)"
    unfolding run_node_def p by (simp add: merge_def create_initial_state_def)
  have "graph_step e Planner (w, create_initial_state input)
      = Inr (END, called w, (create_initial_state input)\<lparr>task_plan := [], current_task_index := 0,
                     next_agent := ''executor'', iteration_count := 1\<rparr>)"
    by (simp add: graph_step_Planner p m route_from_planner_def)
  then have r: "run_workflow e (Suc (Suc limit)) w input
           = Inr ([Planner], called w,
                  (create_initial_state input)\<lparr>task_plan := [], current_task_index := 0,
                     next_agent := ''executor'', iteration_count := 1\<rparr>)"
    by (simp add: run_workflow_def)
  then show ?thesis
    by (simp add: run_def create_initial_state_def)
qed

theorem empty_plan_ends_run_witness:
  "planner_llm (example_env [] add_call rejecting) (tick world0) (planning_prompt ''go'') = Inr []
   \<and> run_workflow (example_env [] add_call rejecting) (Suc (Suc 23)) world0 ''go''
       = Inr ([Planner], called world0,
              (create_initial_state ''go'')\<lparr>task_plan := [], current_task_index := 0,
                 next_agent := ''executor'', iteration_count := 1\<rparr>)
   \<and> run (example_env [] add_call rejecting) (Suc (Suc 23)) world0 ''go''
       = \<lparr>out_success = True, out_output = None, out_validation_passed = False,
          out_iterations = 1, out_errors = [], out_warnings = []\<rparr>"
proof -
  have h: "planner_llm (example_env [] add_call rejecting) (tick world0) (planning_prompt ''go'')
      = Inr []"
    by (simp add: example_env_def)
  from empty_plan_ends_run [OF h, of 23] h show ?thesis by simp
qed

text \<open>
  The claim as worded has the run report \<open>success = false\<close> with the state marked done.
  With a producer that returns no task, \<open>run\<close> reports success and the final state is
  not marked complete.
\<close>

theorem empty_plan_success_counterexample:
  "planner_llm (example_env [] add_call rejecting) 0 (planning_prompt ''go'') = Inr []
   \<and> out_success (run (example_env [] add_call rejecting) 25 world0 ''go'')
   \<and> \<not> isl (run_workflow (example_env [] add_call rejecting) 25 world0 ''go'')
   \<and> \<not> is_complete (snd (snd (projr
        (run_workflow (example_env [] add_call rejecting) 25 world0 ''go''))))"
  by code_simp

section \<open>Retry budget\<close>

lemma validator_retry_count:
  "retry_count (snd ws) \<le> retry_count (snd (validator_execute e ws))
   \<and> (retry_count (snd ws) \<le> 2 \<longrightarrow> retry_count (snd (validator_execute e ws)) \<le> 2)"
  by (simp add: validator_execute_def auto_validated_def validation_error_def decide_def Let_def
           split: sum.splits)

lemma executor_retry_count: "retry_count (snd (executor_execute e ws)) = retry_count (snd ws)"
  by (simp add: executor_execute_def dependencies_not_met_def execution_failed_def task_done_def
        in_progress_def Let_def split: sum.splits)

lemma planner_retry_count: "retry_count (snd (planner_execute e ws)) = retry_count (snd ws)"
  by (simp add: planner_execute_def Let_def split: sum.splits)

lemma memory_retry_count: "retry_count (snd (memory_execute e ws)) = retry_count (snd ws)"
  by (simp add: memory_execute_def Let_def split: option.splits)

lemma graph_step_retry_count:
  assumes "graph_step e n ws = Inr (n', ws')"
  shows "retry_count (snd ws) \<le> retry_count (snd ws')
       \<and> (retry_count (snd ws) \<le> 2 \<longrightarrow> retry_count (snd ws') \<le> 2)"
  using assms
proof (cases rule: graph_step_cases)
  case planner
  then show ?thesis by (simp add: run_node_parts merge_fields planner_retry_count)
next
  case executor
  then show ?thesis by (simp add: run_node_parts merge_fields executor_retry_count)
next
  case validator
  then show ?thesis using validator_retry_count [of ws e]
    by (simp add: run_node_parts merge_fields)
next
  case memory
  then show ?thesis by (simp add: run_node_parts merge_fields memory_retry_count)
next
  case finished
  then show ?thesis by simp
qed

lemma reachable_retry_bounds:
  assumes "reachable e c"
  shows "0 \<le> retry_count (snd (snd c)) \<and> retry_count (snd (snd c)) \<le> 2"
  using assms
proof (induction rule: reachable.induct)
  case (start w input)
  show ?case by (simp add: create_initial_state_def)
next
  case (step n ws n' ws')
  from graph_step_retry_count [OF step.hyps(2)] step.IH show ?case by simp
qed

text \<open>
  C7. In every configuration a run goes through, the retry count lies between 0 and 2,
  and no step of the workflow (planner, executor, validator or memory agent, with the
  routing that follows) decreases it: the count after the step is at least the count
  before, and still at most 2.
\<close>

theorem retry_count_monotone_bounded:
  assumes "reachable e (n, ws)"
  shows "0 \<le> retry_count (snd ws) \<and> retry_count (snd ws) \<le> 2
       \<and> (\<forall>n' ws'. graph_step e n ws = Inr (n', ws') \<longrightarrow>
             retry_count (snd ws) \<le> retry_count (snd ws') \<and> retry_count (snd ws') \<le> 2)"
  using reachable_retry_bounds [OF assms] graph_step_retry_count [of e n ws]
  by auto

text \<open>
  The first validation of the two-task run raises the count from 0 to 1 and hands back
  to the executor.
\<close>

theorem retry_count_monotone_bounded_witness:
  "reachable fickle_env (Validator, first_validation)
   \<and> graph_step fickle_env Validator first_validation
       = Inr (Executor, run_node (validator_execute fickle_env) first_validation)
   \<and> retry_count (snd first_validation) = 0
   \<and> retry_count (snd (run_node (validator_execute fickle_env) first_validation)) = 1
   \<and> retry_count (snd first_validation)
       \<le> retry_count (snd (run_node (validator_execute fickle_env) first_validation))
   \<and> retry_count (snd (run_node (validator_execute fickle_env) first_validation)) \<le> 2"
proof -
  have c: "\<not> is_complete (snd (validator_execute fickle_env first_validation))" by code_simp
  then have g: "graph_step fickle_env Validator first_validation
       = Inr (Executor, run_node (validator_execute fickle_env) first_validation)"
    by (simp add: graph_step_Validator)
  have r0: "retry_count (snd first_validation) = 0" by code_simp
  have r1: "retry_count (snd (run_node (validator_execute fickle_env) first_validation)) = 1"
    by code_simp
  from retry_count_monotone_bounded [OF first_validation_reachable] g
  have "retry_count (snd first_validation)
          \<le> retry_count (snd (run_node (validator_execute fickle_env) first_validation))
      \<and> retry_count (snd (run_node (validator_execute fickle_env) first_validation)) \<le> 2"
    by blast
  with first_validation_reachable g r0 r1 show ?thesis by blast
qed

section \<open>Retry passes\<close>

text \<open>
  C3. What the code does on a retry, on two runs of the two-task plan whose second task
  can never run. After the first pass the first task is Completed with the calculator's
  result and the second is Failed. The validator rejects, resets the second task to
  Pending and the index to 0, and hands back to the executor, which executes the task at
  index 0 again although it is Completed. With a decision step that changes its answer,
  the result of the Completed task is overwritten and a second log entry is added for
  it; with a decision step that keeps asking for the calculator, the tool is invoked
  once per pass, three times in the run, for the one task that uses it.
\<close>

theorem retry_reexecutes_completed_task:
  "status (task_plan (snd first_pass) ! 0) = COMPLETED
   \<and> result (task_plan (snd first_pass) ! 0)
       = Some (''Tool calculator executed successfully:'' @ nl @ ''8'')
   \<and> status (task_plan (snd first_pass) ! 1) = FAILED
   \<and> length (tool_calls (snd first_pass)) = 1
   \<and> route_from_validator (snd (validator_execute fickle_env first_pass)) = ''executor''
   \<and> current_task_index (snd (validator_execute fickle_env first_pass)) = 0
   \<and> status (task_plan (snd (validator_execute fickle_env first_pass)) ! 0) = COMPLETED
   \<and> status (task_plan (snd (validator_execute fickle_env first_pass)) ! 1) = PENDING
   \<and> result (task_plan (snd retry_pass) ! 0) = Some ''The answer is 7''
   \<and> map tc_task_id (tool_calls (snd retry_pass)) = [''task_1'', ''task_1'']
   \<and> invocations (fst (snd (projr
        (run_workflow (example_env two_tasks add_call rejecting) 25 world0 ''go''))))
       = [(''calculator'', ''5 + 3''), (''calculator'', ''5 + 3''), (''calculator'', ''5 + 3'')]"
proof -
  have a: "status (task_plan (snd first_pass) ! 0) = COMPLETED
   \<and> result (task_plan (snd first_pass) ! 0)
       = Some (''Tool calculator executed successfully:'' @ nl @ ''8'')
   \<and> status (task_plan (snd first_pass) ! 1) = FAILED
   \<and> length (tool_calls (snd first_pass)) = 1
   \<and> route_from_validator (snd (validator_execute fickle_env first_pass)) = ''executor''
   \<and> current_task_index (snd (validator_execute fickle_env first_pass)) = 0
   \<and> status (task_plan (snd (validator_execute fickle_env first_pass)) ! 0) = COMPLETED
   \<and> status (task_plan (snd (validator_execute fickle_env first_pass)) ! 1) = PENDING
   \<and> result (task_plan (snd retry_pass) ! 0) = Some ''The answer is 7''
   \<and> map tc_task_id (tool_calls (snd retry_pass)) = [''task_1'', ''task_1'']"
    by code_simp
  from rejecting_run obtain w s where
    "run_workflow (example_env two_tasks add_call rejecting) 25 world0 ''go''
       = Inr ([Planner, Executor, Executor, Validator, Executor, Executor, Validator,
               Executor, Executor, Validator], w, s)"
    and "invocations w
       = [(''calculator'', ''5 + 3''), (''calculator'', ''5 + 3''), (''calculator'', ''5 + 3'')]"
    by blast
  then have b: "invocations (fst (snd (projr
        (run_workflow (example_env two_tasks add_call rejecting) 25 world0 ''go''))))
       = [(''calculator'', ''5 + 3''), (''calculator'', ''5 + 3''), (''calculator'', ''5 + 3'')]"
    by simp
  from a b show ?thesis by blast
qed

end
